theory Spec2Isabelle
  imports Complex_Main "HOL-Library.Word" "HOL-Library.Sublist"
begin

section \<open>JavaScript values and errors\<close>

text \<open>
  The values that travel through the consumer: what \<^verbatim>\<open>JSON.parse\<close> can return and what
  the driver receives as statement parameters. Finite numbers are rationals; a string
  is a list of code units, of which the 8-bit type \<open>char\<close> covers U+0000 to U+00FF.
\<close>

datatype js_value =
    JUndefined
  | JNull
  | JBool bool
  | JNumber rat
  | JNaN
  | JString string
  | JArray "js_value list"
  | JObject "(string \<times> js_value) list"

text \<open>
  A thrown error object: its constructor name, its message, and the two properties the
  retry classifier reads (\<^verbatim>\<open>err?.code\<close>, \<^verbatim>\<open>err?.errno\<close>), which are \<open>JUndefined\<close>
  on an error that does not come from the driver or the network.
\<close>

record js_error =
  name :: string
  message :: string
  code :: js_value
  errno :: js_value

definition plain_error :: "string \<Rightarrow> string \<Rightarrow> js_error" where
  "plain_error n m = \<lparr>name = n, message = m, code = JUndefined, errno = JUndefined\<rparr>"

type_synonym buffer = "8 word list"

section \<open>Identifier codec (db.mjs: parse, stringify)\<close>

subsection \<open>String built-ins\<close>

definition upper_chars :: string where
  "upper_chars = ''ABCDEFGHIJKLMNOPQRSTUVWXYZ'' @
     [CHR 0xC0, CHR 0xC1, CHR 0xC2, CHR 0xC3, CHR 0xC4, CHR 0xC5, CHR 0xC6, CHR 0xC7,
      CHR 0xC8, CHR 0xC9, CHR 0xCA, CHR 0xCB, CHR 0xCC, CHR 0xCD, CHR 0xCE, CHR 0xCF,
      CHR 0xD0, CHR 0xD1, CHR 0xD2, CHR 0xD3, CHR 0xD4, CHR 0xD5, CHR 0xD6,
      CHR 0xD8, CHR 0xD9, CHR 0xDA, CHR 0xDB, CHR 0xDC, CHR 0xDD, CHR 0xDE]"

definition lower_chars :: string where
  "lower_chars = ''abcdefghijklmnopqrstuvwxyz'' @
     [CHR 0xE0, CHR 0xE1, CHR 0xE2, CHR 0xE3, CHR 0xE4, CHR 0xE5, CHR 0xE6, CHR 0xE7,
      CHR 0xE8, CHR 0xE9, CHR 0xEA, CHR 0xEB, CHR 0xEC, CHR 0xED, CHR 0xEE, CHR 0xEF,
      CHR 0xF0, CHR 0xF1, CHR 0xF2, CHR 0xF3, CHR 0xF4, CHR 0xF5, CHR 0xF6,
      CHR 0xF8, CHR 0xF9, CHR 0xFA, CHR 0xFB, CHR 0xFC, CHR 0xFD, CHR 0xFE]"

text \<open>
  \<^verbatim>\<open>String.prototype.toLowerCase\<close> on the code units below U+0100: A to Z and the
  Latin-1 capitals (U+00C0 to U+00DE without the multiplication sign) move to their
  small letters, every other code unit stays.
\<close>

definition lower_char :: "char \<Rightarrow> char" where
  "lower_char c = (case map_of (zip upper_chars lower_chars) c of Some l \<Rightarrow> l | None \<Rightarrow> c)"

definition toLowerCase :: "string \<Rightarrow> string" where
  "toLowerCase s = map lower_char s"

text \<open>\<^verbatim>\<open>uuid.replace(/-/g, '')\<close>: every hyphen is deleted, wherever it stands.\<close>

definition replace_hyphens :: "string \<Rightarrow> string" where
  "replace_hyphens s = filter (\<lambda>c. c \<noteq> CHR ''-'') s"

text \<open>\<^verbatim>\<open>s.slice(a, b)\<close> and \<^verbatim>\<open>s.slice(a)\<close> for indices that are not negative.\<close>

definition slice :: "nat \<Rightarrow> nat \<Rightarrow> string \<Rightarrow> string" where
  "slice a b s = take (b - a) (drop a s)"

definition slice_from :: "nat \<Rightarrow> string \<Rightarrow> string" where
  "slice_from a s = drop a s"

subsection \<open>Regular expressions over one character class\<close>

text \<open>
  \<open>class_repeat P n s\<close> consumes exactly \<open>n\<close> characters of the class \<open>P\<close> from the
  front of \<open>s\<close> and returns the rest; \<open>literal c s\<close> consumes the character \<open>c\<close>.
\<close>

fun class_repeat :: "(char \<Rightarrow> bool) \<Rightarrow> nat \<Rightarrow> string \<Rightarrow> string option" where
  "class_repeat P 0 s = Some s"
| "class_repeat P (Suc n) [] = None"
| "class_repeat P (Suc n) (c # cs) = (if P c then class_repeat P n cs else None)"

fun literal :: "char \<Rightarrow> string \<Rightarrow> string option" where
  "literal c [] = None"
| "literal c (d # ds) = (if d = c then Some ds else None)"

text \<open>The class \<^verbatim>\<open>[0-9a-f]\<close>, and the same class under the flag \<^verbatim>\<open>i\<close>.\<close>

definition class_0_9a_f :: "char \<Rightarrow> bool" where
  "class_0_9a_f c = (c \<in> set ''0123456789abcdef'')"

definition class_0_9a_f_i :: "char \<Rightarrow> bool" where
  "class_0_9a_f_i c = (c \<in> set ''0123456789abcdefABCDEF'')"

text \<open>\<^verbatim>\<open>/^[0-9a-f]{32}$/.test(hex)\<close>\<close>

definition test_hex32 :: "string \<Rightarrow> bool" where
  "test_hex32 hex = (class_repeat class_0_9a_f 32 hex = Some [])"

subsection \<open>Buffers\<close>

text \<open>
  \<^verbatim>\<open>Buffer.from(hex, 'hex')\<close> reads two hexadecimal digits per byte and stops at the
  first pair that is not hexadecimal; a last single character is dropped.
\<close>

definition hex_val :: "char \<Rightarrow> nat option" where
  "hex_val c = map_of (zip ''0123456789abcdefABCDEF''
     [0, 1, 2, 3, 4, 5, 6, 7, 8, 9, 10, 11, 12, 13, 14, 15, 10, 11, 12, 13, 14, 15]) c"

fun Buffer_from_hex :: "string \<Rightarrow> buffer" where
  "Buffer_from_hex (a # b # rest) =
     (case hex_val a of
        None \<Rightarrow> []
      | Some h \<Rightarrow> (case hex_val b of
          None \<Rightarrow> []
        | Some l \<Rightarrow> of_nat (16 * h + l) # Buffer_from_hex rest))"
| "Buffer_from_hex _ = []"

text \<open>\<^verbatim>\<open>buf.toString('hex')\<close>: two lowercase digits per byte.\<close>

definition hex_digit :: "nat \<Rightarrow> char" where
  "hex_digit n = ''0123456789abcdef'' ! n"

definition byte_hex :: "8 word \<Rightarrow> string" where
  "byte_hex b = [hex_digit (unat b div 16), hex_digit (unat b mod 16)]"

definition toString_hex :: "buffer \<Rightarrow> string" where
  "toString_hex buf = concat (map byte_hex buf)"

subsection \<open>parse and stringify\<close>

text \<open>
  \<^verbatim>\<open>parse(uuid)\<close>. A value that is not a string has no callable \<^verbatim>\<open>replace\<close>, so the
  first line throws a TypeError. On a string, the hyphens are removed, the rest is
  lower-cased, and anything but 32 hexadecimal digits throws
  \<^verbatim>\<open>Error(`Invalid UUID: ${uuid}`)\<close>.
\<close>

definition invalid_uuid :: "string \<Rightarrow> js_error" where
  "invalid_uuid uuid = plain_error ''Error'' (''Invalid UUID: '' @ uuid)"

definition parse_string :: "string \<Rightarrow> js_error + buffer" where
  "parse_string uuid =
     (let hex = toLowerCase (replace_hyphens uuid) in
      if \<not> test_hex32 hex then Inl (invalid_uuid uuid)
      else Inr (Buffer_from_hex hex))"

fun parse :: "js_value \<Rightarrow> js_error + buffer" where
  "parse (JString uuid) = parse_string uuid"
| "parse JUndefined =
     Inl (plain_error ''TypeError'' ''Cannot read properties of undefined (reading 'replace')'')"
| "parse JNull =
     Inl (plain_error ''TypeError'' ''Cannot read properties of null (reading 'replace')'')"
| "parse _ = Inl (plain_error ''TypeError'' ''uuid.replace is not a function'')"

definition stringify :: "buffer \<Rightarrow> string" where
  "stringify buf =
     (let hex = toString_hex buf in
      slice 0 8 hex @ ''-'' @
      slice 8 12 hex @ ''-'' @
      slice 12 16 hex @ ''-'' @
      slice 16 20 hex @ ''-'' @
      slice_from 20 hex)"

subsection \<open>The external form of an identifier, in the specification's words\<close>

text \<open>
  The canonical hyphenation pattern, 8-4-4-4-12 hexadecimal digits in either case:
  \<^verbatim>\<open>/^[0-9a-f]{8}-[0-9a-f]{4}-[0-9a-f]{4}-[0-9a-f]{4}-[0-9a-f]{12}$/i\<close>.
\<close>

definition canonical_uuid :: "string \<Rightarrow> bool" where
  "canonical_uuid s =
     (Option.bind (class_repeat class_0_9a_f_i 8 s) (\<lambda>s1.
      Option.bind (literal CHR ''-'' s1) (\<lambda>s2.
      Option.bind (class_repeat class_0_9a_f_i 4 s2) (\<lambda>s3.
      Option.bind (literal CHR ''-'' s3) (\<lambda>s4.
      Option.bind (class_repeat class_0_9a_f_i 4 s4) (\<lambda>s5.
      Option.bind (literal CHR ''-'' s5) (\<lambda>s6.
      Option.bind (class_repeat class_0_9a_f_i 4 s6) (\<lambda>s7.
      Option.bind (literal CHR ''-'' s7) (\<lambda>s8.
      class_repeat class_0_9a_f_i 12 s8)))))))) = Some [])"

text \<open>
  "Exactly 32 hexadecimal characters": the length is 32 and every character is a
  hexadecimal digit.
\<close>

definition hex32 :: "string \<Rightarrow> bool" where
  "hex32 h = (length h = 32 \<and> list_all class_0_9a_f_i h)"

section \<open>Property access and coercions\<close>

text \<open>
  \<open>get v k\<close> reads the property \<open>k\<close> of a value that is neither \<^verbatim>\<open>undefined\<close> nor
  \<^verbatim>\<open>null\<close>: the stored value on an object that has the key, \<^verbatim>\<open>undefined\<close> otherwise
  (none of the keys read here is a built-in property of a string, number or array).
\<close>

definition nullish :: "js_value \<Rightarrow> bool" where
  "nullish v = (v = JUndefined \<or> v = JNull)"

fun get :: "js_value \<Rightarrow> string \<Rightarrow> js_value" where
  "get (JObject props) k = (case map_of props k of None \<Rightarrow> JUndefined | Some v \<Rightarrow> v)"
| "get _ k = JUndefined"

text \<open>\<^verbatim>\<open>a ?? b\<close>, a default parameter \<^verbatim>\<open>{ a = b }\<close>, and \<^verbatim>\<open>!!a\<close>.\<close>

definition coalesce :: "js_value \<Rightarrow> js_value \<Rightarrow> js_value" where
  "coalesce a b = (if nullish a then b else a)"

definition default_to :: "js_value \<Rightarrow> js_value \<Rightarrow> js_value" where
  "default_to a b = (if a = JUndefined then b else a)"

fun truthy :: "js_value \<Rightarrow> bool" where
  "truthy JUndefined = False"
| "truthy JNull = False"
| "truthy (JBool b) = b"
| "truthy (JNumber n) = (n \<noteq> 0)"
| "truthy JNaN = False"
| "truthy (JString s) = (s \<noteq> [])"
| "truthy (JArray _) = True"
| "truthy (JObject _) = True"

section \<open>The store (db.mjs)\<close>

text \<open>
  A row of \<^verbatim>\<open>orders_ops\<close>. A column holds the parameter that was written to it (the
  conversion to the column's SQL type is not modelled); timestamps are milliseconds.
\<close>

record row =
  order_id :: buffer
  partner_id :: js_value
  status :: js_value
  total_amount :: js_value
  currency :: js_value
  created_ts :: nat
  updated_ts :: nat
  is_deleted :: nat

text \<open>
  What a handler can observe and change: the table, the store's clock, the outcome the
  store has in stock for each coming statement (\<open>None\<close>: it executes; \<open>Some f\<close>: the
  driver rejects with \<open>f\<close>; an empty script: every statement executes), the trace of
  what the retry executor did, and the values that \<^verbatim>\<open>Math.random()\<close> returns to it.
\<close>

record driver_error =
  sql_message :: string
  sql_code :: js_value
  sql_errno :: js_value

datatype event = Invoke nat | Warn nat int | SetTimeout int

record world =
  orders_ops :: "row list"
  faults :: "driver_error option list"
  clock :: nat
  trace :: "event list"
  draws :: "rat list"

text \<open>The driver rejects with a plain \<^verbatim>\<open>Error\<close> that carries \<^verbatim>\<open>code\<close> and \<^verbatim>\<open>errno\<close>.\<close>

definition thrown_by_driver :: "driver_error \<Rightarrow> js_error" where
  "thrown_by_driver f =
     \<lparr>name = ''Error'', message = sql_message f, code = sql_code f, errno = sql_errno f\<rparr>"

definition take_fault :: "world \<Rightarrow> driver_error option \<times> world" where
  "take_fault w = (case faults w of [] \<Rightarrow> (None, w) | f # fs \<Rightarrow> (f, w\<lparr>faults := fs\<rparr>))"

text \<open>The driver sends \<^verbatim>\<open>undefined\<close> as \<^verbatim>\<open>NULL\<close>.\<close>

definition sql_param :: "js_value \<Rightarrow> js_value" where
  "sql_param v = (if v = JUndefined then JNull else v)"

text \<open>
  Modelled from the spec: the table's DDL is not part of the sources. On insert the
  store sets \<^verbatim>\<open>created_ts\<close> (the comment in db.mjs: "created_ts is handled by DB
  default") and \<^verbatim>\<open>updated_ts\<close> ("set by the store on every insert or update to the
  time of that write") to the time of the write.
\<close>

definition inserted_row ::
  "nat \<Rightarrow> buffer \<Rightarrow> js_value \<Rightarrow> js_value \<Rightarrow> js_value \<Rightarrow> js_value \<Rightarrow> nat \<Rightarrow> row" where
  "inserted_row now k p s t c d =
     \<lparr>order_id = k, partner_id = sql_param p, status = sql_param s, total_amount = sql_param t,
      currency = sql_param c, created_ts = now, updated_ts = now, is_deleted = d\<rparr>"

text \<open>
  The \<^verbatim>\<open>ON DUPLICATE KEY UPDATE\<close> clause of \<^verbatim>\<open>upsertOrder\<close>: the five listed columns
  take the new values and \<^verbatim>\<open>updated_ts = CURRENT_TIMESTAMP(3)\<close>.
\<close>

definition updated_row ::
  "nat \<Rightarrow> js_value \<Rightarrow> js_value \<Rightarrow> js_value \<Rightarrow> js_value \<Rightarrow> nat \<Rightarrow> row \<Rightarrow> row" where
  "updated_row now p s t c d r =
     r\<lparr>partner_id := sql_param p, status := sql_param s, total_amount := sql_param t,
       currency := sql_param c, is_deleted := d, updated_ts := now\<rparr>"

text \<open>\<^verbatim>\<open>INSERT INTO orders_ops (...) VALUES (?, ?, ?, ?, ?, ?) ON DUPLICATE KEY UPDATE ...\<close>\<close>

definition insert_on_duplicate_key_update ::
  "nat \<Rightarrow> buffer \<Rightarrow> js_value \<Rightarrow> js_value \<Rightarrow> js_value \<Rightarrow> js_value \<Rightarrow> nat \<Rightarrow> row list \<Rightarrow> row list" where
  "insert_on_duplicate_key_update now k p s t c d rows =
     (if \<exists>r \<in> set rows. order_id r = k
      then map (\<lambda>r. if order_id r = k then updated_row now p s t c d r else r) rows
      else rows @ [inserted_row now k p s t c d])"

definition query_upsert ::
  "buffer \<Rightarrow> js_value \<Rightarrow> js_value \<Rightarrow> js_value \<Rightarrow> js_value \<Rightarrow> nat \<Rightarrow> world
     \<Rightarrow> (js_error + unit) \<times> world" where
  "query_upsert k p s t c d w =
     (case take_fault w of
        (Some f, w') \<Rightarrow> (Inl (thrown_by_driver f), w')
      | (None, w') \<Rightarrow>
          (Inr (), w'\<lparr>orders_ops :=
             insert_on_duplicate_key_update (clock w') k p s t c d (orders_ops w')\<rparr>))"

text \<open>
  \<^verbatim>\<open>upsertOrder({ orderId, partnerId, status, totalAmount, currency = 'USD',
  isDeleted = false })\<close>. The parameter array is built, and \<^verbatim>\<open>parse(orderId)\<close> run,
  before the statement is sent.
\<close>

definition upsertOrder :: "js_value \<Rightarrow> world \<Rightarrow> (js_error + unit) \<times> world" where
  "upsertOrder arg w =
     (if nullish arg
      then (Inl (plain_error ''TypeError'' ''Cannot destructure property 'orderId' of the argument''), w)
      else
        let orderId = get arg ''orderId'';
            partnerId = get arg ''partnerId'';
            status = get arg ''status'';
            totalAmount = get arg ''totalAmount'';
            currency = default_to (get arg ''currency'') (JString ''USD'');
            isDeleted = default_to (get arg ''isDeleted'') (JBool False)
        in case parse orderId of
             Inl e \<Rightarrow> (Inl e, w)
           | Inr k \<Rightarrow>
               query_upsert k partnerId status totalAmount currency
                 (if truthy isDeleted then 1 else 0) w)"

text \<open>The object that \<^verbatim>\<open>getOrderById\<close> and \<^verbatim>\<open>listByPartner\<close> build from a row.\<close>

datatype order_record = OrderRecord
  (rec_orderId: string) (rec_partnerId: js_value) (rec_status: js_value)
  (rec_totalAmount: js_value) (rec_currency: js_value) (rec_createdTs: nat)
  (rec_updatedTs: nat) (rec_isDeleted: bool)

definition normalized :: "row \<Rightarrow> order_record" where
  "normalized r =
     OrderRecord (stringify (order_id r)) (partner_id r) (status r) (total_amount r)
       (currency r) (created_ts r) (updated_ts r) (is_deleted r \<noteq> 0)"

text \<open>
  \<^verbatim>\<open>SELECT ... FROM orders_ops WHERE order_id = ?\<close> and
  \<^verbatim>\<open>SELECT ... FROM orders_ops WHERE partner_id = ? ORDER BY created_ts DESC\<close>.
  A comparison with \<^verbatim>\<open>NULL\<close> is never true; the collation of \<^verbatim>\<open>partner_id\<close> is not
  modelled, and rows with the same \<^verbatim>\<open>created_ts\<close> keep their table order reversed.
\<close>

definition query_by_order_id :: "buffer \<Rightarrow> world \<Rightarrow> (js_error + row list) \<times> world" where
  "query_by_order_id k w =
     (case take_fault w of
        (Some f, w') \<Rightarrow> (Inl (thrown_by_driver f), w')
      | (None, w') \<Rightarrow> (Inr (filter (\<lambda>r. order_id r = k) (orders_ops w')), w'))"


text \<open>\<^verbatim>\<open>getOrderById(orderId)\<close>: \<open>None\<close> is the \<^verbatim>\<open>null\<close> it returns when no row matches.\<close>

definition getOrderById :: "js_value \<Rightarrow> world \<Rightarrow> (js_error + order_record option) \<times> world" where
  "getOrderById orderId w =
     (case parse orderId of
        Inl e \<Rightarrow> (Inl e, w)
      | Inr k \<Rightarrow>
          (case query_by_order_id k w of
             (Inl e, w') \<Rightarrow> (Inl e, w')
           | (Inr rows, w') \<Rightarrow>
               (if length rows = 0 then (Inr None, w')
                else (Inr (Some (normalized (hd rows))), w'))))"


section \<open>Retry classification (consumer.mjs: isRetryable)\<close>

definition retryableCodes :: "js_value list" where
  "retryableCodes =
     [JString ''PROTOCOL_CONNECTION_LOST'',
      JString ''ECONNREFUSED'',
      JString ''ETIMEDOUT'',
      JString ''EPIPE'',
      JString ''ECONNRESET'',
      JString ''PROTOCOL_ENQUEUE_AFTER_FATAL_ERROR'']"

definition retryableErrnos :: "js_value list" where
  "retryableErrnos = [JNumber 1205, JNumber 1213]"

text \<open>\<^verbatim>\<open>Set.prototype.has\<close> on a set of strings or numbers.\<close>

definition has :: "js_value list \<Rightarrow> js_value \<Rightarrow> bool" where
  "has elements v = (v \<in> set elements)"

definition isRetryable :: "js_error \<Rightarrow> bool" where
  "isRetryable err = (has retryableCodes (code err) \<or> has retryableErrnos (errno err))"

subsection \<open>The decision table, in the specification's words\<close>

datatype cause =
    ConnectionLoss
  | ConnectionRefused
  | Timeout
  | BrokenPipe
  | ConnectionReset
  | EnqueueAfterFatalDisconnect
  | LockWaitTimeout
  | Deadlock

datatype classification = Retryable | Permanent

text \<open>How an error of the driver or of the network layer names each cause.\<close>

fun reports :: "js_error \<Rightarrow> cause \<Rightarrow> bool" where
  "reports e ConnectionLoss = (code e = JString ''PROTOCOL_CONNECTION_LOST'')"
| "reports e ConnectionRefused = (code e = JString ''ECONNREFUSED'')"
| "reports e Timeout = (code e = JString ''ETIMEDOUT'')"
| "reports e BrokenPipe = (code e = JString ''EPIPE'')"
| "reports e ConnectionReset = (code e = JString ''ECONNRESET'')"
| "reports e EnqueueAfterFatalDisconnect = (code e = JString ''PROTOCOL_ENQUEUE_AFTER_FATAL_ERROR'')"
| "reports e LockWaitTimeout = (errno e = JNumber 1205)"
| "reports e Deadlock = (errno e = JNumber 1213)"

definition classify :: "js_error \<Rightarrow> classification" where
  "classify e = (if isRetryable e then Retryable else Permanent)"

section \<open>The retry executor (p-retry 4 on the retry package)\<close>

record retry_options =
  retries :: nat
  factor :: rat
  minTimeout :: int
  maxTimeout :: int
  randomize :: bool

definition Math_round :: "rat \<Rightarrow> int" where
  "Math_round x = \<lfloor>x + 1 / 2\<rfloor>"

text \<open>
  \<^verbatim>\<open>retry.createTimeout(attempt, opts)\<close>; \<open>u\<close> is what \<^verbatim>\<open>Math.random()\<close> returns when
  \<^verbatim>\<open>randomize\<close> asks for it.
\<close>

definition createTimeout :: "rat \<Rightarrow> nat \<Rightarrow> retry_options \<Rightarrow> int" where
  "createTimeout u attempt opts =
     (let random = (if randomize opts then u + 1 else 1);
          timeout = Math_round (random * of_int (max (minTimeout opts) 1) * factor opts ^ attempt)
      in min timeout (maxTimeout opts))"

definition draw :: "rat list \<Rightarrow> nat \<Rightarrow> rat" where
  "draw us i = (if i < length us then us ! i else 0)"

text \<open>\<^verbatim>\<open>retry.timeouts(options)\<close>: one timeout per retry, sorted ascending.\<close>

definition timeouts :: "rat list \<Rightarrow> retry_options \<Rightarrow> int list" where
  "timeouts us opts = sort (map (\<lambda>i. createTimeout (draw us i) i opts) [0..<retries opts])"

text \<open>
  \<^verbatim>\<open>operation.mainError()\<close>: the error whose message was seen most often, the latest one
  on a tie; \<^verbatim>\<open>null\<close> when no error was recorded.
\<close>

fun mainError_loop ::
  "js_error list \<Rightarrow> (string \<times> nat) list \<Rightarrow> js_error option \<Rightarrow> nat \<Rightarrow> js_error option" where
  "mainError_loop [] counts mainErr mainErrorCount = mainErr"
| "mainError_loop (error # rest) counts mainErr mainErrorCount =
     (let count = (case map_of counts (message error) of None \<Rightarrow> 0 | Some c \<Rightarrow> c) + 1;
          counts' = (message error, count) # counts
      in if count \<ge> mainErrorCount
         then mainError_loop rest counts' (Some error) count
         else mainError_loop rest counts' mainErr mainErrorCount)"

definition mainError :: "js_error list \<Rightarrow> js_error option" where
  "mainError errors = mainError_loop errors [] None 0"

text \<open>What the wrapped function throws: \<^verbatim>\<open>new pRetry.AbortError(err)\<close> or another error.\<close>

datatype thrown = AbortError js_error | Failure js_error

definition networkErrorMsgs :: "string list" where
  "networkErrorMsgs =
     [''Failed to fetch'',
      ''NetworkError when attempting to fetch resource.'',
      ''The Internet connection appears to be offline.'',
      ''Network request failed'']"

text \<open>The wait between two attempts: the clock moves on by the timeout.\<close>

definition setTimeout :: "int \<Rightarrow> world \<Rightarrow> world" where
  "setTimeout t w = w\<lparr>clock := clock w + nat t, trace := trace w @ [SetTimeout t]\<rparr>"

text \<open>
  \<^verbatim>\<open>operation.attempt\<close> with p-retry's handler. An attempt that resolves settles the
  promise. An \<^verbatim>\<open>AbortError\<close> stops the operation and rejects with the original error; so
  does a TypeError that is not a network error. Any other error is given to
  \<^verbatim>\<open>onFailedAttempt\<close> with its attempt number and the retries left, recorded, and retried
  after the next timeout; when no timeout is left the promise rejects with the main
  error (which exists, since the error was just recorded).
\<close>

fun operation_attempt ::
  "(nat \<Rightarrow> world \<Rightarrow> (thrown + 'a) \<times> world) \<Rightarrow> (js_error \<Rightarrow> nat \<Rightarrow> int \<Rightarrow> world \<Rightarrow> world)
     \<Rightarrow> nat \<Rightarrow> nat \<Rightarrow> int list \<Rightarrow> js_error list \<Rightarrow> world \<Rightarrow> (js_error + 'a) \<times> world" where
  "operation_attempt input onFailed n attemptNumber ts errors w =
     (case input attemptNumber (w\<lparr>trace := trace w @ [Invoke attemptNumber]\<rparr>) of
        (Inr v, w1) \<Rightarrow> (Inr v, w1)
      | (Inl (AbortError original), w1) \<Rightarrow> (Inl original, w1)
      | (Inl (Failure error), w1) \<Rightarrow>
          (if name error = ''TypeError'' \<and> message error \<notin> set networkErrorMsgs
           then (Inl error, w1)
           else
             let retriesLeft = int n - (int attemptNumber - 1);
                 w2 = onFailed error attemptNumber retriesLeft w1;
                 errors' = errors @ [error]
             in (case ts of
                   [] \<Rightarrow> (case mainError errors' of
                            None \<Rightarrow> (Inl error, w2)
                          | Some m \<Rightarrow> (Inl m, w2))
                 | t # ts' \<Rightarrow>
                     operation_attempt input onFailed n (Suc attemptNumber) ts' errors'
                       (setTimeout t w2))))"

definition pRetry ::
  "(nat \<Rightarrow> world \<Rightarrow> (thrown + 'a) \<times> world) \<Rightarrow> retry_options
     \<Rightarrow> (js_error \<Rightarrow> nat \<Rightarrow> int \<Rightarrow> world \<Rightarrow> world) \<Rightarrow> world \<Rightarrow> (js_error + 'a) \<times> world" where
  "pRetry input opts onFailed w =
     operation_attempt input onFailed (retries opts) 1 (timeouts (draws w) opts) [] w"

section \<open>The message handler (consumer.mjs: startConsumer, eachMessage)\<close>

text \<open>
  The bytes of a message value are represented by what \<^verbatim>\<open>JSON.parse\<close> makes of their
  UTF-8 text: a SyntaxError, or the parsed value. A message without a value (a
  tombstone) has \<open>None\<close>.
\<close>

datatype payload_text = Unparseable | Parsed js_value

record kafka_message =
  message_value :: "payload_text option"

fun JSON_parse :: "payload_text \<Rightarrow> js_error + js_value" where
  "JSON_parse Unparseable = Inl (plain_error ''SyntaxError'' ''Unexpected token in JSON'')"
| "JSON_parse (Parsed v) = Inr v"

definition consumer_options :: retry_options where
  "consumer_options =
     \<lparr>retries = 2, factor = 2, minTimeout = 2000, maxTimeout = 5000, randomize = False\<rparr>"

text \<open>\<^verbatim>\<open>onFailedAttempt\<close>: the warning with the attempt number and the retries left.\<close>

definition onFailedAttempt :: "js_error \<Rightarrow> nat \<Rightarrow> int \<Rightarrow> world \<Rightarrow> world" where
  "onFailedAttempt error attemptNumber retriesLeft w =
     w\<lparr>trace := trace w @ [Warn attemptNumber retriesLeft]\<rparr>"

text \<open>The function given to \<^verbatim>\<open>pRetry\<close>: one call of \<^verbatim>\<open>upsertOrder\<close> under try/catch.\<close>

definition attempt_upsert :: "js_value \<Rightarrow> nat \<Rightarrow> world \<Rightarrow> (thrown + unit) \<times> world" where
  "attempt_upsert order attemptNumber w =
     (case upsertOrder order w of
        (Inr res, w') \<Rightarrow> (Inr (), w')
      | (Inl err, w') \<Rightarrow>
          (if \<not> isRetryable err then (Inl (AbortError err), w')
           else (Inl (Failure err), w')))"

definition eachMessage :: "kafka_message \<Rightarrow> world \<Rightarrow> (js_error + unit) \<times> world" where
  "eachMessage msg w =
     (case message_value msg of
        None \<Rightarrow>
          (Inl (plain_error ''TypeError'' ''Cannot read properties of null (reading 'toString')''), w)
      | Some text \<Rightarrow>
          (case JSON_parse text of
             Inl e \<Rightarrow> (Inl e, w)
           | Inr payload \<Rightarrow>
               (if nullish payload
                then (Inl (plain_error ''TypeError''
                        ''Cannot read properties of null (reading 'orderId')''), w)
                else
                  let order = JObject
                        [(''orderId'', get payload ''orderId''),
                         (''partnerId'', get payload ''partnerId''),
                         (''status'', get payload ''status''),
                         (''totalAmount'', get payload ''totalAmount''),
                         (''currency'', coalesce (get payload ''currency'') (JString ''USD'')),
                         (''isDeleted'', JBool (truthy (get payload ''isDeleted'')))]
                  in pRetry (attempt_upsert order) consumer_options onFailedAttempt w)))"

text \<open>
  The comment that closes the handler: "If we get here, the write succeeded; kafkajs
  commits the offset after handler returns". The cursor moves past a message when its
  handler returns, and stays when the handler rejects.
\<close>

fun offset_resolved :: "js_error + unit \<Rightarrow> bool" where
  "offset_resolved (Inr _) = True"
| "offset_resolved (Inl _) = False"

section \<open>Reference behaviour, in the specification's words\<close>

text \<open>
  What the retry executor leaves in the trace when every attempt fails with an error
  it retries: attempt, warning, wait, and so on until no timeout is left.
\<close>

fun schedule :: "nat \<Rightarrow> nat \<Rightarrow> int list \<Rightarrow> event list" where
  "schedule n attemptNumber [] =
     [Invoke attemptNumber, Warn attemptNumber (int n - (int attemptNumber - 1))]"
| "schedule n attemptNumber (t # ts) =
     [Invoke attemptNumber, Warn attemptNumber (int n - (int attemptNumber - 1)), SetTimeout t]
       @ schedule n (Suc attemptNumber) ts"

text \<open>
  A message fails to decode when it has no value, when its text is not JSON, when the
  JSON value is \<^verbatim>\<open>null\<close>, or when its \<^verbatim>\<open>orderId\<close> is not an identifier; \<open>decode_error\<close>
  is the error that the failure raises.
\<close>

definition decode_error :: "kafka_message \<Rightarrow> js_error option" where
  "decode_error msg =
     (case message_value msg of
        None \<Rightarrow>
          Some (plain_error ''TypeError'' ''Cannot read properties of null (reading 'toString')'')
      | Some text \<Rightarrow>
          (case JSON_parse text of
             Inl e \<Rightarrow> Some e
           | Inr payload \<Rightarrow>
               (if nullish payload
                then Some (plain_error ''TypeError''
                       ''Cannot read properties of null (reading 'orderId')'')
                else (case parse (get payload ''orderId'') of
                        Inl e \<Rightarrow> Some e
                      | Inr k \<Rightarrow> None))))"

section \<open>Properties of the identifier codec\<close>

lemma class_repeat_iff:
  "class_repeat P n s = Some r \<longleftrightarrow> (\<exists>a. s = a @ r \<and> length a = n \<and> list_all P a)"
proof (induction P n s rule: class_repeat.induct)
  case (1 P s)
  then show ?case by auto
next
  case (2 P n)
  then show ?case by auto
next
  case (3 P n c cs)
  show ?case
  proof (cases "P c")
    case True
    have "(\<exists>a. c # cs = a @ r \<and> length a = Suc n \<and> list_all P a)
          \<longleftrightarrow> (\<exists>a'. cs = a' @ r \<and> length a' = n \<and> list_all P a')"
      using True by (auto simp: length_Suc_conv Cons_eq_append_conv)
    with 3 True show ?thesis by simp
  next
    case False
    then show ?thesis by (auto simp: length_Suc_conv Cons_eq_append_conv)
  qed
qed

lemma literal_iff: "literal c s = Some r \<longleftrightarrow> s = c # r"
  by (cases s) auto

lemma test_hex32_iff: "test_hex32 h \<longleftrightarrow> length h = 32 \<and> list_all class_0_9a_f h"
  by (auto simp: test_hex32_def class_repeat_iff)

lemma canonical_uuid_iff:
  "canonical_uuid s \<longleftrightarrow>
   (\<exists>a b c d e. s = a @ ''-'' @ b @ ''-'' @ c @ ''-'' @ d @ ''-'' @ e \<and>
      length a = 8 \<and> length b = 4 \<and> length c = 4 \<and> length d = 4 \<and> length e = 12 \<and>
      list_all class_0_9a_f_i (a @ b @ c @ d @ e))"
  unfolding canonical_uuid_def bind_eq_Some_conv class_repeat_iff literal_iff
  by (auto; blast?)

lemma hex_val_digit_all:
  "list_all (\<lambda>c. case hex_val c of None \<Rightarrow> False | Some v \<Rightarrow> v < 16 \<and> hex_digit v = c)
     ''0123456789abcdef''"
  by code_simp

lemma hex_val_digit:
  assumes "class_0_9a_f c"
  shows "\<exists>v. hex_val c = Some v \<and> v < 16 \<and> hex_digit v = c"
proof -
  from assms have "c \<in> set ''0123456789abcdef''"
    unfolding class_0_9a_f_def .
  with hex_val_digit_all
  have "case hex_val c of None \<Rightarrow> False | Some v \<Rightarrow> v < 16 \<and> hex_digit v = c"
    unfolding list_all_iff by blast
  then show ?thesis by (cases "hex_val c") simp_all
qed

lemma byte_hex_of_nat:
  assumes "h < 16" "l < 16"
  shows "byte_hex (of_nat (16 * h + l)) = [hex_digit h, hex_digit l]"
proof -
  have "16 * h + l < 256" using assms by simp
  then have "unat (of_nat (16 * h + l) :: 8 word) = 16 * h + l"
    by (simp only: unat_of_nat) simp
  then show ?thesis using assms unfolding byte_hex_def by simp
qed

lemma toString_hex_from_hex:
  "list_all class_0_9a_f h \<Longrightarrow> even (length h) \<Longrightarrow> toString_hex (Buffer_from_hex h) = h"
proof (induction h rule: Buffer_from_hex.induct)
  case (1 a b rest)
  from 1(2) obtain va where va: "hex_val a = Some va" "va < 16" "hex_digit va = a"
    using hex_val_digit [of a] by auto
  from 1(2) obtain vb where vb: "hex_val b = Some vb" "vb < 16" "hex_digit vb = b"
    using hex_val_digit [of b] by auto
  have "toString_hex (Buffer_from_hex rest) = rest"
    using 1 va vb by simp
  then show ?case
    using va vb byte_hex_of_nat [of va vb] by (simp add: toString_hex_def del: of_nat_add of_nat_mult)
qed (simp_all add: toString_hex_def)

lemma length_Buffer_from_hex:
  "list_all class_0_9a_f h \<Longrightarrow> length (Buffer_from_hex h) = length h div 2"
proof (induction h rule: Buffer_from_hex.induct)
  case (1 a b rest)
  from 1(2) obtain va where va: "hex_val a = Some va"
    using hex_val_digit [of a] by auto
  from 1(2) obtain vb where vb: "hex_val b = Some vb"
    using hex_val_digit [of b] by auto
  show ?case using 1 va vb by simp
qed simp_all

lemma lower_char_class_all:
  "list_all (\<lambda>c. class_0_9a_f (lower_char c)) ''0123456789abcdefABCDEF''"
  by code_simp

lemma lower_char_class: "class_0_9a_f_i c \<Longrightarrow> class_0_9a_f (lower_char c)"
  using lower_char_class_all unfolding list_all_iff class_0_9a_f_i_def by blast

lemma lower_char_hyphen: "lower_char CHR ''-'' = CHR ''-''"
  by code_simp

lemma class_not_hyphen: "class_0_9a_f_i c \<Longrightarrow> c \<noteq> CHR ''-''"
  by (auto simp: class_0_9a_f_i_def)

lemma replace_hyphens_class: "list_all class_0_9a_f_i x \<Longrightarrow> replace_hyphens x = x"
  by (induction x) (auto simp: replace_hyphens_def class_not_hyphen)

lemma replace_hyphens_append: "replace_hyphens (x @ y) = replace_hyphens x @ replace_hyphens y"
  by (simp add: replace_hyphens_def)

lemma replace_hyphens_hyphen: "replace_hyphens (CHR ''-'' # x) = replace_hyphens x"
  by (simp add: replace_hyphens_def)

lemma toLowerCase_class: "list_all class_0_9a_f_i x \<Longrightarrow> list_all class_0_9a_f (toLowerCase x)"
  by (induction x) (auto simp: toLowerCase_def lower_char_class)

lemma stringify_groups:
  assumes "toString_hex buf = a @ b @ c @ d @ e"
    and "length a = 8" "length b = 4" "length c = 4" "length d = 4"
  shows "stringify buf = a @ ''-'' @ b @ ''-'' @ c @ ''-'' @ d @ ''-'' @ e"
  using assms by (simp add: stringify_def slice_def slice_from_def)

lemma lower_char_other: "c \<notin> set upper_chars \<Longrightarrow> lower_char c = c"
proof -
  assume "c \<notin> set upper_chars"
  moreover have "length upper_chars = length lower_chars"
    by (simp add: upper_chars_def lower_chars_def)
  ultimately have "map_of (zip upper_chars lower_chars) c = None"
    by (simp add: map_of_zip_is_None)
  then show ?thesis by (simp add: lower_char_def)
qed

lemma lower_char_upper_all:
  "list_all (\<lambda>c. (class_0_9a_f (lower_char c) \<longrightarrow> class_0_9a_f_i c) \<and>
                 (class_0_9a_f_i (lower_char c) \<longrightarrow> class_0_9a_f (lower_char c))) upper_chars"
  by code_simp

lemma lower_char_class_back: "class_0_9a_f (lower_char c) \<Longrightarrow> class_0_9a_f_i c"
proof (cases "c \<in> set upper_chars")
  case True
  then show "class_0_9a_f (lower_char c) \<Longrightarrow> class_0_9a_f_i c"
    using lower_char_upper_all by (simp add: list_all_iff)
next
  case False
  then have "lower_char c = c" by (rule lower_char_other)
  then show "class_0_9a_f (lower_char c) \<Longrightarrow> class_0_9a_f_i c"
    by (auto simp: class_0_9a_f_i_def class_0_9a_f_def)
qed

lemma lower_char_no_capital: "class_0_9a_f_i (lower_char c) \<Longrightarrow> class_0_9a_f (lower_char c)"
proof (cases "c \<in> set upper_chars")
  case True
  then show "class_0_9a_f_i (lower_char c) \<Longrightarrow> class_0_9a_f (lower_char c)"
    using lower_char_upper_all by (simp add: list_all_iff)
next
  case False
  then have same: "lower_char c = c" by (rule lower_char_other)
  have "set ''ABCDEF'' \<subseteq> set upper_chars"
    by (simp add: upper_chars_def)
  with False have "c \<notin> set ''ABCDEF''" by blast
  then show "class_0_9a_f_i (lower_char c) \<Longrightarrow> class_0_9a_f (lower_char c)"
    unfolding same by (auto simp: class_0_9a_f_i_def class_0_9a_f_def)
qed

lemma class_0_9a_f_sub: "class_0_9a_f c \<Longrightarrow> class_0_9a_f_i c"
  by (auto simp: class_0_9a_f_def class_0_9a_f_i_def)

lemma hex32_toLowerCase:
  "hex32 (toLowerCase x) \<longleftrightarrow> test_hex32 (toLowerCase x)"
proof -
  have "list_all class_0_9a_f_i (map lower_char x) \<longleftrightarrow> list_all class_0_9a_f (map lower_char x)"
  proof
    assume "list_all class_0_9a_f_i (map lower_char x)"
    then have "\<forall>c \<in> set x. class_0_9a_f_i (lower_char c)"
      by (simp add: list_all_iff)
    then have "\<forall>c \<in> set x. class_0_9a_f (lower_char c)"
      using lower_char_no_capital by blast
    then show "list_all class_0_9a_f (map lower_char x)"
      by (simp add: list_all_iff)
  next
    assume "list_all class_0_9a_f (map lower_char x)"
    then have "\<forall>c \<in> set x. class_0_9a_f (lower_char c)"
      by (simp add: list_all_iff)
    then have "\<forall>c \<in> set x. class_0_9a_f_i (lower_char c)"
      using class_0_9a_f_sub by blast
    then show "list_all class_0_9a_f_i (map lower_char x)"
      by (simp add: list_all_iff)
  qed
  then show ?thesis by (simp add: hex32_def test_hex32_iff toLowerCase_def)
qed

lemma canonical_uuid_accepted:
  assumes "canonical_uuid s"
  shows "test_hex32 (toLowerCase (replace_hyphens s))"
proof -
  from assms obtain a b c d e where
    s: "s = a @ ''-'' @ b @ ''-'' @ c @ ''-'' @ d @ ''-'' @ e"
    and len: "length a = 8" "length b = 4" "length c = 4" "length d = 4" "length e = 12"
    and cls: "list_all class_0_9a_f_i (a @ b @ c @ d @ e)"
    unfolding canonical_uuid_iff by blast
  have strip: "replace_hyphens s = a @ b @ c @ d @ e"
    using cls by (simp add: s replace_hyphens_append replace_hyphens_hyphen replace_hyphens_class)
  have "list_all class_0_9a_f (toLowerCase (a @ b @ c @ d @ e))"
    using cls by (rule toLowerCase_class)
  moreover have "length (toLowerCase (a @ b @ c @ d @ e)) = 32"
    using len by (simp add: toLowerCase_def)
  ultimately show ?thesis
    by (simp add: strip test_hex32_iff)
qed

text \<open>
  C4. For every string in the canonical 36-character hyphenated form, encoding it with
  \<open>parse\<close> succeeds and decoding the bytes with \<open>stringify\<close> gives the lower-case form
  of the string.
\<close>

theorem decodeId_encodeId_roundtrip:
  assumes "canonical_uuid s"
  shows "\<exists>buf. parse (JString s) = Inr buf \<and> stringify buf = toLowerCase s"
proof -
  from assms obtain a b c d e where
    s: "s = a @ ''-'' @ b @ ''-'' @ c @ ''-'' @ d @ ''-'' @ e"
    and len: "length a = 8" "length b = 4" "length c = 4" "length d = 4" "length e = 12"
    and cls: "list_all class_0_9a_f_i (a @ b @ c @ d @ e)"
    unfolding canonical_uuid_iff by blast
  let ?h = "toLowerCase (a @ b @ c @ d @ e)"
  have strip: "replace_hyphens s = a @ b @ c @ d @ e"
    using cls by (simp add: s replace_hyphens_append replace_hyphens_hyphen replace_hyphens_class)
  have low: "list_all class_0_9a_f ?h"
    using cls by (rule toLowerCase_class)
  have len_h: "length ?h = 32"
    using len by (simp add: toLowerCase_def)
  have ok: "test_hex32 ?h"
    using low len_h by (simp add: test_hex32_iff)
  have p: "parse (JString s) = Inr (Buffer_from_hex ?h)"
    using ok by (simp add: parse_string_def strip)
  have rt: "toString_hex (Buffer_from_hex ?h) = ?h"
    using low len_h by (simp add: toString_hex_from_hex)
  have split_h: "?h = toLowerCase a @ toLowerCase b @ toLowerCase c @ toLowerCase d @ toLowerCase e"
    by (simp add: toLowerCase_def)
  have grp: "toString_hex (Buffer_from_hex ?h) =
        toLowerCase a @ toLowerCase b @ toLowerCase c @ toLowerCase d @ toLowerCase e"
    using rt split_h by simp
  have "stringify (Buffer_from_hex ?h) =
        toLowerCase a @ ''-'' @ toLowerCase b @ ''-'' @ toLowerCase c @ ''-'' @ toLowerCase d @ ''-'' @ toLowerCase e"
    using len by (intro stringify_groups [OF grp]) (simp_all add: toLowerCase_def)
  also have "\<dots> = toLowerCase s"
    by (simp add: s toLowerCase_def lower_char_hyphen)
  finally show ?thesis using p by blast
qed

theorem decodeId_encodeId_roundtrip_witness:
  "canonical_uuid ''3F2504E0-4f89-11D3-9A0C-0305E82C3301'' \<and>
   (\<exists>buf. parse (JString ''3F2504E0-4f89-11D3-9A0C-0305E82C3301'') = Inr buf \<and>
      stringify buf = ''3f2504e0-4f89-11d3-9a0c-0305e82c3301'')"
proof -
  have c: "canonical_uuid ''3F2504E0-4f89-11D3-9A0C-0305E82C3301''"
    by code_simp
  have l: "toLowerCase ''3F2504E0-4f89-11D3-9A0C-0305E82C3301'' =
           ''3f2504e0-4f89-11d3-9a0c-0305e82c3301''"
    by code_simp
  from decodeId_encodeId_roundtrip [OF c] show ?thesis
    unfolding l using c by blast
qed

text \<open>
  C8. \<open>parse\<close> throws the invalid-identifier error exactly when the input, with its
  hyphens removed and lower-cased, is not 32 hexadecimal characters; otherwise it
  returns 16 bytes, and these bytes spell the 32 digits.
\<close>

theorem encodeId_fails_exactly:
  "(hex32 (toLowerCase (replace_hyphens s)) \<longrightarrow>
      (\<exists>buf. parse (JString s) = Inr buf \<and> length buf = 16 \<and>
         toString_hex buf = toLowerCase (replace_hyphens s))) \<and>
   (\<not> hex32 (toLowerCase (replace_hyphens s)) \<longrightarrow> parse (JString s) = Inl (invalid_uuid s))"
proof (cases "test_hex32 (toLowerCase (replace_hyphens s))")
  case True
  let ?h = "toLowerCase (replace_hyphens s)"
  from True have h: "length ?h = 32" "list_all class_0_9a_f ?h"
    by (simp_all add: test_hex32_iff)
  have "parse (JString s) = Inr (Buffer_from_hex ?h)"
    using True by (simp add: parse_string_def)
  moreover have "length (Buffer_from_hex ?h) = 16"
    using h by (simp add: length_Buffer_from_hex)
  moreover have "toString_hex (Buffer_from_hex ?h) = ?h"
    using h by (simp add: toString_hex_from_hex)
  ultimately show ?thesis
    using True by (simp add: hex32_toLowerCase)
next
  case False
  then show ?thesis
    by (simp add: hex32_toLowerCase parse_string_def)
qed

theorem encodeId_fails_exactly_witness:
  "hex32 (toLowerCase (replace_hyphens ''3F2504E04f89-11D39A0C0305E82C33-01'')) \<and>
   (\<exists>buf. parse (JString ''3F2504E04f89-11D39A0C0305E82C33-01'') = Inr buf \<and> length buf = 16 \<and>
      toString_hex buf = ''3f2504e04f8911d39a0c0305e82c3301'') \<and>
   \<not> hex32 (toLowerCase (replace_hyphens ''3F2504E0-4f89-11D3-9A0C-0305E82C330'')) \<and>
   parse (JString ''3F2504E0-4f89-11D3-9A0C-0305E82C330'') =
     Inl (invalid_uuid ''3F2504E0-4f89-11D3-9A0C-0305E82C330'')"
proof -
  have l: "toLowerCase (replace_hyphens ''3F2504E04f89-11D39A0C0305E82C33-01'') =
           ''3f2504e04f8911d39a0c0305e82c3301''"
    by code_simp
  have a: "hex32 (toLowerCase (replace_hyphens ''3F2504E04f89-11D39A0C0305E82C33-01''))"
    by code_simp
  have b: "\<not> hex32 (toLowerCase (replace_hyphens ''3F2504E0-4f89-11D3-9A0C-0305E82C330''))"
    by code_simp
  from a b encodeId_fails_exactly [of "''3F2504E04f89-11D39A0C0305E82C33-01''"]
    encodeId_fails_exactly [of "''3F2504E0-4f89-11D3-9A0C-0305E82C330''"]
  show ?thesis unfolding l by blast
qed

text \<open>
  C7. The claim that \<open>parse\<close> accepts only the canonical 8-4-4-4-12 form fails: 32
  digits without any hyphen are accepted.
\<close>

theorem encodeId_canonical_only_counterexample:
  "parse (JString ''3f2504e04f8911d39a0c0305e82c3301'') =
     Inr [63, 37, 4, 224, 79, 137, 17, 211, 154, 12, 3, 5, 232, 44, 51, 1] \<and>
   \<not> canonical_uuid ''3f2504e04f8911d39a0c0305e82c3301''"
  by code_simp

text \<open>
  C7, amended. \<open>parse\<close> succeeds only on an input made of hexadecimal digits (in either
  case) and hyphens that has exactly 32 digits; where the hyphens stand is not checked.
  Every input in the canonical form is accepted.
\<close>

theorem encodeId_accepts_only_hex_and_hyphens:
  "(parse (JString s) = Inr buf \<longrightarrow>
      list_all (\<lambda>c. class_0_9a_f_i c \<or> c = CHR ''-'') s \<and>
      length (filter class_0_9a_f_i s) = 32) \<and>
   (canonical_uuid s \<longrightarrow> (\<exists>b. parse (JString s) = Inr b))"
proof (intro conjI impI)
  assume p: "parse (JString s) = Inr buf"
  then have t: "test_hex32 (toLowerCase (replace_hyphens s))"
    by (simp add: parse_string_def Let_def split: if_splits)
  then have len: "length (replace_hyphens s) = 32"
    and cls: "list_all class_0_9a_f (toLowerCase (replace_hyphens s))"
    by (simp_all add: test_hex32_iff toLowerCase_def)
  have each: "class_0_9a_f_i c" if "c \<in> set s" "c \<noteq> CHR ''-''" for c
  proof -
    from that have "c \<in> set (replace_hyphens s)"
      by (simp add: replace_hyphens_def)
    with cls have "class_0_9a_f (lower_char c)"
      by (auto simp: toLowerCase_def list_all_iff)
    then show ?thesis by (rule lower_char_class_back)
  qed
  then show "list_all (\<lambda>c. class_0_9a_f_i c \<or> c = CHR ''-'') s"
    unfolding list_all_iff by blast
  have "filter class_0_9a_f_i s = replace_hyphens s"
    unfolding replace_hyphens_def
    by (rule filter_cong) (use each class_not_hyphen in auto)
  with len show "length (filter class_0_9a_f_i s) = 32" by simp
next
  assume "canonical_uuid s"
  then have "test_hex32 (toLowerCase (replace_hyphens s))"
    by (rule canonical_uuid_accepted)
  then show "\<exists>b. parse (JString s) = Inr b"
    by (simp add: parse_string_def)
qed

theorem encodeId_accepts_only_hex_and_hyphens_witness:
  "parse (JString ''3F25-04E04f8911D39A0C0305E82C3301'') =
     Inr [63, 37, 4, 224, 79, 137, 17, 211, 154, 12, 3, 5, 232, 44, 51, 1] \<and>
   list_all (\<lambda>c. class_0_9a_f_i c \<or> c = CHR ''-'') ''3F25-04E04f8911D39A0C0305E82C3301'' \<and>
   length (filter class_0_9a_f_i ''3F25-04E04f8911D39A0C0305E82C3301'') = 32 \<and>
   canonical_uuid ''3F2504E0-4f89-11D3-9A0C-0305E82C3301'' \<and>
   (\<exists>b. parse (JString ''3F2504E0-4f89-11D3-9A0C-0305E82C3301'') = Inr b)"
proof -
  have p: "parse (JString ''3F25-04E04f8911D39A0C0305E82C3301'') =
     Inr [63, 37, 4, 224, 79, 137, 17, 211, 154, 12, 3, 5, 232, 44, 51, 1]"
    by code_simp
  have c: "canonical_uuid ''3F2504E0-4f89-11D3-9A0C-0305E82C3301''"
    by code_simp
  from p c
    encodeId_accepts_only_hex_and_hyphens
      [of "''3F25-04E04f8911D39A0C0305E82C3301''"
          "[63, 37, 4, 224, 79, 137, 17, 211, 154, 12, 3, 5, 232, 44, 51, 1]"]
    encodeId_accepts_only_hex_and_hyphens [of "''3F2504E0-4f89-11D3-9A0C-0305E82C3301''"]
  show ?thesis by blast
qed


section \<open>Properties of the store gateway\<close>

lemma take_fault_fields:
  "orders_ops (snd (take_fault w)) = orders_ops w"
  "clock (snd (take_fault w)) = clock w"
  "trace (snd (take_fault w)) = trace w"
  "draws (snd (take_fault w)) = draws w"
  by (simp_all add: take_fault_def split: list.splits)

lemma query_upsert_ok:
  assumes "fst (take_fault w) = None"
  shows "query_upsert k p s t c d w =
     (Inr (), (snd (take_fault w))\<lparr>orders_ops :=
        insert_on_duplicate_key_update (clock w) k p s t c d (orders_ops w)\<rparr>)"
proof -
  obtain w1 where tf: "take_fault w = (None, w1)"
    using assms by (cases "take_fault w") simp
  have "orders_ops w1 = orders_ops w" "clock w1 = clock w"
    using take_fault_fields [of w] tf by simp_all
  then show ?thesis
    by (simp add: query_upsert_def tf)
qed

lemma upsert_absent:
  "\<forall>r \<in> set rows. order_id r \<noteq> k \<Longrightarrow>
   insert_on_duplicate_key_update now k p s t c d rows = rows @ [inserted_row now k p s t c d]"
  by (simp add: insert_on_duplicate_key_update_def)

lemma upsert_present:
  "\<exists>r \<in> set rows. order_id r = k \<Longrightarrow>
   insert_on_duplicate_key_update now k p s t c d rows =
     map (\<lambda>r. if order_id r = k then updated_row now p s t c d r else r) rows"
  by (simp add: insert_on_duplicate_key_update_def)

lemma updated_row_fields:
  "updated_row now p s t c d r =
     \<lparr>order_id = order_id r, partner_id = sql_param p, status = sql_param s,
      total_amount = sql_param t, currency = sql_param c, created_ts = created_ts r,
      updated_ts = now, is_deleted = d\<rparr>"
  by (cases r) (simp add: updated_row_def)

lemma upsert_keeps_keys:
  "map order_id (take (length rows) (insert_on_duplicate_key_update now k p s t c d rows)) =
     map order_id rows"
proof (cases "\<exists>r \<in> set rows. order_id r = k")
  case True
  have "map order_id (map (\<lambda>r. if order_id r = k then updated_row now p s t c d r else r) rows) =
        map order_id rows"
    by (induction rows) (simp_all add: updated_row_def)
  then show ?thesis
    using True by (simp add: upsert_present)
next
  case False
  then show ?thesis
    by (simp add: upsert_absent)
qed

lemma upsert_keeps_created_ts:
  "map created_ts (take (length rows) (insert_on_duplicate_key_update now k p s t c d rows)) =
     map created_ts rows"
proof (cases "\<exists>r \<in> set rows. order_id r = k")
  case True
  have "map created_ts (map (\<lambda>r. if order_id r = k then updated_row now p s t c d r else r) rows) =
        map created_ts rows"
    by (induction rows) (simp_all add: updated_row_def)
  then show ?thesis
    using True by (simp add: upsert_present)
next
  case False
  then show ?thesis
    by (simp add: upsert_absent)
qed

lemma upsert_keeps_distinct:
  assumes "distinct (map order_id rows)"
  shows "distinct (map order_id (insert_on_duplicate_key_update now k p s t c d rows))"
proof (cases "\<exists>r \<in> set rows. order_id r = k")
  case True
  have "map order_id (map (\<lambda>r. if order_id r = k then updated_row now p s t c d r else r) rows) =
        map order_id rows"
    by (induction rows) (simp_all add: updated_row_def)
  then show ?thesis
    unfolding upsert_present [OF True] using assms by (simp only:)
next
  case False
  then have "k \<notin> set (map order_id rows)"
    by auto
  then show ?thesis
    using False assms by (simp add: upsert_absent inserted_row_def)
qed

text \<open>
  C3. For an \<^verbatim>\<open>orderId\<close> that \<open>parse\<close> encodes and a statement that the store executes,
  \<open>upsertOrder\<close> succeeds. When the table has no row under the encoded key, it appends
  one row with both timestamps at the time of the write. When the table has a row
  under the key, wherever it stands and whatever was written before, that row keeps
  its \<open>order_id\<close> and \<open>created_ts\<close>, takes the new \<open>partner_id\<close>, \<open>status\<close>,
  \<open>total_amount\<close>, \<open>currency\<close> and \<open>is_deleted\<close>, and gets \<open>updated_ts\<close> at the time of
  the write; every other row is left as it is and no row is added. In both cases the rows
  that were in the table keep their key and their \<open>created_ts\<close>, and keys that were
  unique stay unique.
\<close>

theorem upsertOrder_insert_or_replace:
  assumes obj: "\<not> nullish arg"
    and key: "parse (get arg ''orderId'') = Inr k"
    and up: "fst (take_fault w) = None"
  shows "fst (upsertOrder arg w) = Inr () \<and>
     ((\<forall>r \<in> set (orders_ops w). order_id r \<noteq> k) \<longrightarrow>
        orders_ops (snd (upsertOrder arg w)) = orders_ops w @
          [\<lparr>order_id = k,
            partner_id = sql_param (get arg ''partnerId''),
            status = sql_param (get arg ''status''),
            total_amount = sql_param (get arg ''totalAmount''),
            currency = sql_param (default_to (get arg ''currency'') (JString ''USD'')),
            created_ts = clock w,
            updated_ts = clock w,
            is_deleted =
              (if truthy (default_to (get arg ''isDeleted'') (JBool False)) then 1 else 0)\<rparr>]) \<and>
     ((\<exists>r \<in> set (orders_ops w). order_id r = k) \<longrightarrow>
        orders_ops (snd (upsertOrder arg w)) =
          map (\<lambda>r. if order_id r = k
                 then \<lparr>order_id = order_id r,
                       partner_id = sql_param (get arg ''partnerId''),
                       status = sql_param (get arg ''status''),
                       total_amount = sql_param (get arg ''totalAmount''),
                       currency = sql_param (default_to (get arg ''currency'') (JString ''USD'')),
                       created_ts = created_ts r,
                       updated_ts = clock w,
                       is_deleted =
                         (if truthy (default_to (get arg ''isDeleted'') (JBool False))
                          then 1 else 0)\<rparr>
                 else r)
            (orders_ops w)) \<and>
     map order_id (take (length (orders_ops w)) (orders_ops (snd (upsertOrder arg w)))) =
       map order_id (orders_ops w) \<and>
     map created_ts (take (length (orders_ops w)) (orders_ops (snd (upsertOrder arg w)))) =
       map created_ts (orders_ops w) \<and>
     (distinct (map order_id (orders_ops w)) \<longrightarrow>
        distinct (map order_id (orders_ops (snd (upsertOrder arg w)))))"
proof -
  let ?p = "get arg ''partnerId''" and ?s = "get arg ''status''" and ?t = "get arg ''totalAmount''"
  let ?c = "default_to (get arg ''currency'') (JString ''USD'')"
  let ?d = "if truthy (default_to (get arg ''isDeleted'') (JBool False)) then 1 else 0 :: nat"
  let ?new = "insert_on_duplicate_key_update (clock w) k ?p ?s ?t ?c ?d (orders_ops w)"
  have run: "upsertOrder arg w = (Inr (), (snd (take_fault w))\<lparr>orders_ops := ?new\<rparr>)"
    using obj key up by (simp add: upsertOrder_def Let_def query_upsert_ok)
  then have res: "fst (upsertOrder arg w) = Inr ()"
    and tbl: "orders_ops (snd (upsertOrder arg w)) = ?new"
    by simp_all
  have ins: "?new = orders_ops w @ [inserted_row (clock w) k ?p ?s ?t ?c ?d]"
    if "\<forall>r \<in> set (orders_ops w). order_id r \<noteq> k"
    using that by (rule upsert_absent)
  have upd: "?new = map (\<lambda>r. if order_id r = k then updated_row (clock w) ?p ?s ?t ?c ?d r else r)
                      (orders_ops w)"
    if "\<exists>r \<in> set (orders_ops w). order_id r = k"
    using that by (rule upsert_present)
  show ?thesis
    unfolding tbl
    using res ins upd upsert_keeps_keys [of "orders_ops w" "clock w" k ?p ?s ?t ?c ?d]
      upsert_keeps_created_ts [of "orders_ops w" "clock w" k ?p ?s ?t ?c ?d]
      upsert_keeps_distinct [of "orders_ops w" "clock w" k ?p ?s ?t ?c ?d]
    by (simp add: inserted_row_def updated_row_fields)
qed

theorem upsertOrder_insert_or_replace_witness:
  "parse (JString ''3f2504e0-4f89-11d3-9a0c-0305e82c3301'') =
     Inr [63, 37, 4, 224, 79, 137, 17, 211, 154, 12, 3, 5, 232, 44, 51, 1] \<and>
   parse (JString ''3F2504E0-4F89-11D3-9A0C-0305E82C3301'') =
     Inr [63, 37, 4, 224, 79, 137, 17, 211, 154, 12, 3, 5, 232, 44, 51, 1] \<and>
   parse (JString ''00000000-0000-0000-0000-000000000001'') =
     Inr [0, 0, 0, 0, 0, 0, 0, 0, 0, 0, 0, 0, 0, 0, 0, 1] \<and>
   orders_ops (snd (upsertOrder
      (JObject [(''orderId'', JString ''3f2504e0-4f89-11d3-9a0c-0305e82c3301''),
         (''partnerId'', JString ''p-dup''), (''status'', JString ''PLACED''),
         (''totalAmount'', JNumber 10)])
      \<lparr>orders_ops = [], faults = [], clock = 1000, trace = [], draws = []\<rparr>)) =
     [\<lparr>order_id = [63, 37, 4, 224, 79, 137, 17, 211, 154, 12, 3, 5, 232, 44, 51, 1],
       partner_id = JString ''p-dup'', status = JString ''PLACED'',
       total_amount = JNumber 10, currency = JString ''USD'',
       created_ts = 1000, updated_ts = 1000, is_deleted = 0\<rparr>] \<and>
   orders_ops (snd (upsertOrder
      (JObject [(''orderId'', JString ''00000000-0000-0000-0000-000000000001''),
         (''partnerId'', JString ''p-other''), (''status'', JString ''PLACED''),
         (''totalAmount'', JNumber 7), (''currency'', JString ''GBP'')])
      \<lparr>orders_ops =
         [\<lparr>order_id = [63, 37, 4, 224, 79, 137, 17, 211, 154, 12, 3, 5, 232, 44, 51, 1],
           partner_id = JString ''p-dup'', status = JString ''PLACED'',
           total_amount = JNumber 10, currency = JString ''USD'',
           created_ts = 1000, updated_ts = 1000, is_deleted = 0\<rparr>],
       faults = [], clock = 2000, trace = [], draws = []\<rparr>)) =
     [\<lparr>order_id = [63, 37, 4, 224, 79, 137, 17, 211, 154, 12, 3, 5, 232, 44, 51, 1],
       partner_id = JString ''p-dup'', status = JString ''PLACED'',
       total_amount = JNumber 10, currency = JString ''USD'',
       created_ts = 1000, updated_ts = 1000, is_deleted = 0\<rparr>,
      \<lparr>order_id = [0, 0, 0, 0, 0, 0, 0, 0, 0, 0, 0, 0, 0, 0, 0, 1],
       partner_id = JString ''p-other'', status = JString ''PLACED'',
       total_amount = JNumber 7, currency = JString ''GBP'',
       created_ts = 2000, updated_ts = 2000, is_deleted = 0\<rparr>] \<and>
   orders_ops (snd (upsertOrder
      (JObject [(''orderId'', JString ''3F2504E0-4F89-11D3-9A0C-0305E82C3301''),
         (''partnerId'', JString ''p-dup''), (''status'', JString ''CAPTURED''),
         (''totalAmount'', JNumber 12), (''currency'', JString ''EUR''),
         (''isDeleted'', JBool True)])
      \<lparr>orders_ops =
         [\<lparr>order_id = [63, 37, 4, 224, 79, 137, 17, 211, 154, 12, 3, 5, 232, 44, 51, 1],
           partner_id = JString ''p-dup'', status = JString ''PLACED'',
           total_amount = JNumber 10, currency = JString ''USD'',
           created_ts = 1000, updated_ts = 1000, is_deleted = 0\<rparr>,
          \<lparr>order_id = [0, 0, 0, 0, 0, 0, 0, 0, 0, 0, 0, 0, 0, 0, 0, 1],
           partner_id = JString ''p-other'', status = JString ''PLACED'',
           total_amount = JNumber 7, currency = JString ''GBP'',
           created_ts = 2000, updated_ts = 2000, is_deleted = 0\<rparr>],
       faults = [None], clock = 3000, trace = [], draws = []\<rparr>)) =
     [\<lparr>order_id = [63, 37, 4, 224, 79, 137, 17, 211, 154, 12, 3, 5, 232, 44, 51, 1],
       partner_id = JString ''p-dup'', status = JString ''CAPTURED'',
       total_amount = JNumber 12, currency = JString ''EUR'',
       created_ts = 1000, updated_ts = 3000, is_deleted = 1\<rparr>,
      \<lparr>order_id = [0, 0, 0, 0, 0, 0, 0, 0, 0, 0, 0, 0, 0, 0, 0, 1],
       partner_id = JString ''p-other'', status = JString ''PLACED'',
       total_amount = JNumber 7, currency = JString ''GBP'',
       created_ts = 2000, updated_ts = 2000, is_deleted = 0\<rparr>]"
proof -
  let ?ka = "[63, 37, 4, 224, 79, 137, 17, 211, 154, 12, 3, 5, 232, 44, 51, 1] :: buffer"
  let ?kb = "[0, 0, 0, 0, 0, 0, 0, 0, 0, 0, 0, 0, 0, 0, 0, 1] :: buffer"
  let ?first = "JObject [(''orderId'', JString ''3f2504e0-4f89-11d3-9a0c-0305e82c3301''),
         (''partnerId'', JString ''p-dup''), (''status'', JString ''PLACED''),
         (''totalAmount'', JNumber 10)]"
  let ?other = "JObject [(''orderId'', JString ''00000000-0000-0000-0000-000000000001''),
         (''partnerId'', JString ''p-other''), (''status'', JString ''PLACED''),
         (''totalAmount'', JNumber 7), (''currency'', JString ''GBP'')]"
  let ?again = "JObject [(''orderId'', JString ''3F2504E0-4F89-11D3-9A0C-0305E82C3301''),
         (''partnerId'', JString ''p-dup''), (''status'', JString ''CAPTURED''),
         (''totalAmount'', JNumber 12), (''currency'', JString ''EUR''),
         (''isDeleted'', JBool True)]"
  let ?ra = "\<lparr>order_id = ?ka,
           partner_id = JString ''p-dup'', status = JString ''PLACED'',
           total_amount = JNumber 10, currency = JString ''USD'',
           created_ts = 1000, updated_ts = 1000, is_deleted = 0\<rparr>"
  let ?rb = "\<lparr>order_id = ?kb,
           partner_id = JString ''p-other'', status = JString ''PLACED'',
           total_amount = JNumber 7, currency = JString ''GBP'',
           created_ts = 2000, updated_ts = 2000, is_deleted = 0\<rparr>"
  let ?w0 = "\<lparr>orders_ops = [], faults = [], clock = 1000, trace = [], draws = []\<rparr>"
  let ?w1 = "\<lparr>orders_ops = [?ra], faults = [], clock = 2000, trace = [], draws = []\<rparr>"
  let ?w2 = "\<lparr>orders_ops = [?ra, ?rb], faults = [None], clock = 3000, trace = [], draws = []\<rparr>"
  have pa: "parse (JString ''3f2504e0-4f89-11d3-9a0c-0305e82c3301'') = Inr ?ka"
    by code_simp
  have pA: "parse (JString ''3F2504E0-4F89-11D3-9A0C-0305E82C3301'') = Inr ?ka"
    by code_simp
  have pb: "parse (JString ''00000000-0000-0000-0000-000000000001'') = Inr ?kb"
    by code_simp
  have o: "\<not> nullish ?first" "\<not> nullish ?other" "\<not> nullish ?again"
    by (simp_all add: nullish_def)
  have k: "parse (get ?first ''orderId'') = Inr ?ka" "parse (get ?other ''orderId'') = Inr ?kb"
    "parse (get ?again ''orderId'') = Inr ?ka"
    using pa pb pA by simp_all
  have u: "fst (take_fault ?w0) = None" "fst (take_fault ?w1) = None" "fst (take_fault ?w2) = None"
    by (simp_all add: take_fault_def)
  have a0: "\<forall>r \<in> set (orders_ops ?w0). order_id r \<noteq> ?ka"
    by simp
  have a1: "\<forall>r \<in> set (orders_ops ?w1). order_id r \<noteq> ?kb"
    by simp
  have e2: "\<exists>r \<in> set (orders_ops ?w2). order_id r = ?ka"
    by simp
  have s1: "orders_ops (snd (upsertOrder ?first ?w0)) = [?ra]"
    using upsertOrder_insert_or_replace [OF o(1) k(1) u(1)] a0
    by (simp add: sql_param_def default_to_def)
  have s2: "orders_ops (snd (upsertOrder ?other ?w1)) = [?ra, ?rb]"
    using upsertOrder_insert_or_replace [OF o(2) k(2) u(2)] a1
    by (simp add: sql_param_def default_to_def)
  have "orders_ops (snd (upsertOrder ?again ?w2)) =
          map (\<lambda>r. if order_id r = ?ka
                 then \<lparr>order_id = order_id r,
                       partner_id = sql_param (get ?again ''partnerId''),
                       status = sql_param (get ?again ''status''),
                       total_amount = sql_param (get ?again ''totalAmount''),
                       currency = sql_param (default_to (get ?again ''currency'') (JString ''USD'')),
                       created_ts = created_ts r,
                       updated_ts = clock ?w2,
                       is_deleted =
                         (if truthy (default_to (get ?again ''isDeleted'') (JBool False))
                          then 1 else 0)\<rparr>
                 else r)
            (orders_ops ?w2)"
    using upsertOrder_insert_or_replace [OF o(3) k(3) u(3)] e2 by blast
  then have s3: "orders_ops (snd (upsertOrder ?again ?w2)) =
     [\<lparr>order_id = ?ka,
       partner_id = JString ''p-dup'', status = JString ''CAPTURED'',
       total_amount = JNumber 12, currency = JString ''EUR'',
       created_ts = 1000, updated_ts = 3000, is_deleted = 1\<rparr>, ?rb]"
    by (simp add: sql_param_def default_to_def)
  from pa pA pb s1 s2 s3 show ?thesis by blast
qed

lemma query_by_order_id_ok:
  assumes "fst (take_fault w) = None"
  shows "query_by_order_id k w =
     (Inr (filter (\<lambda>r. order_id r = k) (orders_ops w)), snd (take_fault w))"
proof -
  obtain w1 where tf: "take_fault w = (None, w1)"
    using assms by (cases "take_fault w") simp
  have "orders_ops w1 = orders_ops w"
    using take_fault_fields [of w] tf by simp
  then show ?thesis
    by (simp add: query_by_order_id_def tf)
qed



lemma parse_error_plain: "parse v = Inl e \<Longrightarrow> code e = JUndefined \<and> errno e = JUndefined"
  by (cases v) (auto simp: parse_string_def invalid_uuid_def plain_error_def Let_def split: if_splits)

text \<open>
  C10. For an input that is not 32 hexadecimal characters once its hyphens are removed
  and it is lower-cased, \<open>getOrderById\<close> throws the invalid-identifier error and leaves
  the store untouched (no statement is sent). It returns the not-found signal exactly
  for a well-formed identifier that the store, executing the query, finds no row for.
\<close>

theorem getOrderById_rejects_malformed:
  "(\<not> hex32 (toLowerCase (replace_hyphens s)) \<longrightarrow>
      getOrderById (JString s) w = (Inl (invalid_uuid s), w)) \<and>
   (fst (getOrderById (JString s) w) = Inr None \<longleftrightarrow>
      hex32 (toLowerCase (replace_hyphens s)) \<and> fst (take_fault w) = None \<and>
      filter (\<lambda>r. order_id r = Buffer_from_hex (toLowerCase (replace_hyphens s))) (orders_ops w) = [])"
proof (cases "test_hex32 (toLowerCase (replace_hyphens s))")
  case False
  then have "parse (JString s) = Inl (invalid_uuid s)"
    by (simp add: parse_string_def)
  then have "getOrderById (JString s) w = (Inl (invalid_uuid s), w)"
    by (simp add: getOrderById_def)
  then show ?thesis
    using False by (simp add: hex32_toLowerCase)
next
  case True
  let ?k = "Buffer_from_hex (toLowerCase (replace_hyphens s))"
  from True have p: "parse (JString s) = Inr ?k"
    by (simp add: parse_string_def)
  show ?thesis
  proof (cases "fst (take_fault w)")
    case None
    then show ?thesis
      using True p by (simp add: hex32_toLowerCase getOrderById_def query_by_order_id_ok)
  next
    case (Some f)
    then obtain w1 where "take_fault w = (Some f, w1)"
      by (cases "take_fault w") simp
    then show ?thesis
      using True p Some by (simp add: hex32_toLowerCase getOrderById_def query_by_order_id_def)
  qed
qed



theorem getOrderById_rejects_malformed_witness:
  "\<not> hex32 (toLowerCase (replace_hyphens ''3f2504e0-4f89-11d3-9a0c-0305e82c330g'')) \<and>
   getOrderById (JString ''3f2504e0-4f89-11d3-9a0c-0305e82c330g'')
     \<lparr>orders_ops = [],
      faults = [Some \<lparr>sql_message = ''connect ECONNREFUSED'', sql_code = JString ''ECONNREFUSED'',
                      sql_errno = JNumber (- 111)\<rparr>],
      clock = 0, trace = [], draws = []\<rparr> =
     (Inl (invalid_uuid ''3f2504e0-4f89-11d3-9a0c-0305e82c330g''),
      \<lparr>orders_ops = [],
       faults = [Some \<lparr>sql_message = ''connect ECONNREFUSED'', sql_code = JString ''ECONNREFUSED'',
                       sql_errno = JNumber (- 111)\<rparr>],
       clock = 0, trace = [], draws = []\<rparr>)"
proof -
  have "\<not> hex32 (toLowerCase (replace_hyphens ''3f2504e0-4f89-11d3-9a0c-0305e82c330g''))"
    by code_simp
  then show ?thesis
    using getOrderById_rejects_malformed [of "''3f2504e0-4f89-11d3-9a0c-0305e82c330g''"]
    by blast
qed

section \<open>Properties of the retry classifier\<close>

text \<open>
  C5. \<open>isRetryable\<close> holds exactly for the errors that report one of the eight
  transient causes (connection loss, connection refused, timeout, broken pipe,
  connection reset, enqueue after fatal disconnect, lock wait timeout, deadlock);
  every other error is classified permanent.
\<close>

theorem isRetryable_decision_table:
  "(isRetryable e \<longleftrightarrow> (\<exists>c. reports e c)) \<and>
   (classify e = Retryable \<longleftrightarrow> (\<exists>c. reports e c)) \<and>
   (classify e = Permanent \<longleftrightarrow> (\<forall>c. \<not> reports e c))"
proof -
  have "isRetryable e \<longleftrightarrow> (\<exists>c. reports e c)"
  proof
    assume "isRetryable e"
    then consider
        "reports e ConnectionLoss" | "reports e ConnectionRefused" | "reports e Timeout"
      | "reports e BrokenPipe" | "reports e ConnectionReset"
      | "reports e EnqueueAfterFatalDisconnect" | "reports e LockWaitTimeout"
      | "reports e Deadlock"
      by (auto simp: isRetryable_def has_def retryableCodes_def retryableErrnos_def)
    then show "\<exists>c. reports e c" by cases blast+
  next
    assume "\<exists>c. reports e c"
    then obtain c where "reports e c" ..
    then show "isRetryable e"
      by (cases c) (simp_all add: isRetryable_def has_def retryableCodes_def retryableErrnos_def)
  qed
  then show ?thesis by (simp add: classify_def)
qed


section \<open>Properties of the retry executor and of the message handler\<close>

declare operation_attempt.simps [simp del]

lemma Math_round_of_int: "Math_round (of_int i) = i"
  unfolding Math_round_def by (rule floor_unique) simp_all

lemma createTimeout_consumer_options:
  "createTimeout u i consumer_options = min (2000 * 2 ^ i) 5000"
proof -
  have "Math_round (of_int (2000 * 2 ^ i)) = 2000 * 2 ^ i"
    by (rule Math_round_of_int)
  then show ?thesis
    by (simp add: createTimeout_def consumer_options_def)
qed

lemma timeouts_consumer_options: "timeouts us consumer_options = [2000, 4000]"
proof -
  have "[0..<2] = [0, Suc 0]"
    by (simp add: numeral_2_eq_2)
  moreover have "retries consumer_options = 2"
    by (simp add: consumer_options_def)
  ultimately show ?thesis
    by (simp add: timeouts_def createTimeout_consumer_options)
qed

lemma attempt_resolved:
  assumes "input a (w\<lparr>trace := trace w @ [Invoke a]\<rparr>) = (Inr v, w1)"
  shows "operation_attempt input onFailed n a ts errs w = (Inr v, w1)"
  using assms by (subst operation_attempt.simps) simp

lemma attempt_aborted:
  assumes "input a (w\<lparr>trace := trace w @ [Invoke a]\<rparr>) = (Inl (AbortError e), w1)"
  shows "operation_attempt input onFailed n a ts errs w = (Inl e, w1)"
  using assms by (subst operation_attempt.simps) simp

lemma attempt_type_error:
  assumes "input a (w\<lparr>trace := trace w @ [Invoke a]\<rparr>) = (Inl (Failure e), w1)"
    and "name e = ''TypeError'' \<and> message e \<notin> set networkErrorMsgs"
  shows "operation_attempt input onFailed n a ts errs w = (Inl e, w1)"
  using assms by (subst operation_attempt.simps) simp

lemma attempt_retried:
  assumes "input a (w\<lparr>trace := trace w @ [Invoke a]\<rparr>) = (Inl (Failure e), w1)"
    and "\<not> (name e = ''TypeError'' \<and> message e \<notin> set networkErrorMsgs)"
  shows "operation_attempt input onFailed n a (t # ts) errs w =
         operation_attempt input onFailed n (Suc a) ts (errs @ [e])
           (setTimeout t (onFailed e a (int n - (int a - 1)) w1))"
  using assms by (subst operation_attempt.simps) (auto simp: Let_def)

lemma attempt_exhausted:
  assumes "input a (w\<lparr>trace := trace w @ [Invoke a]\<rparr>) = (Inl (Failure e), w1)"
    and "\<not> (name e = ''TypeError'' \<and> message e \<notin> set networkErrorMsgs)"
  shows "operation_attempt input onFailed n a [] errs w =
         (Inl (case mainError (errs @ [e]) of None \<Rightarrow> e | Some m \<Rightarrow> m),
          onFailed e a (int n - (int a - 1)) w1)"
  using assms by (subst operation_attempt.simps) (auto simp: Let_def split: option.splits)

lemma isRetryable_plain: "code e = JUndefined \<Longrightarrow> errno e = JUndefined \<Longrightarrow> \<not> isRetryable e"
  by (simp add: isRetryable_def has_def retryableCodes_def retryableErrnos_def)

lemma attempt_upsert_invalid:
  assumes "\<not> nullish order" "parse (get order ''orderId'') = Inl e"
  shows "attempt_upsert order a w = (Inl (AbortError e), w)"
proof -
  have "\<not> isRetryable e"
    using parse_error_plain [OF assms(2)] by (simp add: isRetryable_plain)
  then show ?thesis
    using assms by (simp add: attempt_upsert_def upsertOrder_def Let_def)
qed

lemma attempt_upsert_fault:
  assumes "\<not> nullish order" "parse (get order ''orderId'') = Inr k" "faults w = Some f # fs"
  shows "attempt_upsert order a w =
     (Inl (if isRetryable (thrown_by_driver f) then Failure (thrown_by_driver f)
           else AbortError (thrown_by_driver f)), w\<lparr>faults := fs\<rparr>)"
  using assms
  by (simp add: attempt_upsert_def upsertOrder_def Let_def query_upsert_def take_fault_def)

lemma name_thrown_by_driver:
  "\<not> (name (thrown_by_driver f) = ''TypeError'' \<and> message (thrown_by_driver f) \<notin> set networkErrorMsgs)"
  by (simp add: thrown_by_driver_def)

lemma abort_after_retried:
  assumes "\<not> nullish order" "parse (get order ''orderId'') = Inr k"
    and "faults w = map Some rs @ Some f # rest"
    and "\<forall>r \<in> set rs. isRetryable (thrown_by_driver r)"
    and "length rs \<le> length ts"
    and "\<not> isRetryable (thrown_by_driver f)"
  shows "\<exists>w'. operation_attempt (attempt_upsert order) onFailedAttempt n a ts errs w =
            (Inl (thrown_by_driver f), w') \<and>
          faults w' = rest \<and> orders_ops w' = orders_ops w \<and>
          trace w' = trace w @ take (3 * length rs + 1) (schedule n a ts)"
  using assms(3-5)
proof (induction rs arbitrary: a ts errs w)
  case Nil
  let ?w0 = "w\<lparr>trace := trace w @ [Invoke a]\<rparr>"
  have "faults ?w0 = Some f # rest"
    using Nil by simp
  then have "attempt_upsert order a ?w0 = (Inl (AbortError (thrown_by_driver f)), ?w0\<lparr>faults := rest\<rparr>)"
    using attempt_upsert_fault [OF assms(1,2)] assms(6) by simp
  then have "operation_attempt (attempt_upsert order) onFailedAttempt n a ts errs w =
        (Inl (thrown_by_driver f), ?w0\<lparr>faults := rest\<rparr>)"
    by (rule attempt_aborted)
  moreover have "take (Suc 0) (schedule n a ts) = [Invoke a]"
    by (cases ts) simp_all
  ultimately show ?case by simp
next
  case (Cons r rs)
  then obtain t ts' where ts: "ts = t # ts'"
    by (cases ts) auto
  let ?w0 = "w\<lparr>trace := trace w @ [Invoke a]\<rparr>"
  let ?e = "thrown_by_driver r"
  let ?w1 = "?w0\<lparr>faults := map Some rs @ Some f # rest\<rparr>"
  let ?w2 = "setTimeout t (onFailedAttempt ?e a (int n - (int a - 1)) ?w1)"
  have "faults ?w0 = Some r # (map Some rs @ Some f # rest)"
    using Cons.prems by simp
  then have "attempt_upsert order a ?w0 = (Inl (Failure ?e), ?w1)"
    using attempt_upsert_fault [OF assms(1,2)] Cons.prems(2) by simp
  then have step: "operation_attempt (attempt_upsert order) onFailedAttempt n a ts errs w =
      operation_attempt (attempt_upsert order) onFailedAttempt n (Suc a) ts' (errs @ [?e]) ?w2"
    unfolding ts by (rule attempt_retried) (rule name_thrown_by_driver)
  have f2: "faults ?w2 = map Some rs @ Some f # rest"
    by (simp add: setTimeout_def onFailedAttempt_def)
  have r2: "\<forall>r \<in> set rs. isRetryable (thrown_by_driver r)"
    using Cons.prems(2) by simp
  have l2: "length rs \<le> length ts'"
    using Cons.prems(3) ts by simp
  from Cons.IH [OF f2 r2 l2, of "Suc a" "errs @ [?e]"]
  obtain w' where w': "operation_attempt (attempt_upsert order) onFailedAttempt n (Suc a) ts'
        (errs @ [?e]) ?w2 = (Inl (thrown_by_driver f), w')"
      "faults w' = rest" "orders_ops w' = orders_ops ?w2"
      "trace w' = trace ?w2 @ take (3 * length rs + 1) (schedule n (Suc a) ts')"
    by blast
  have "3 * length (r # rs) + 1 = Suc (Suc (Suc (3 * length rs + 1)))"
    by simp
  then have "take (3 * length (r # rs) + 1) (schedule n a ts) =
      [Invoke a, Warn a (int n - (int a - 1)), SetTimeout t]
        @ take (3 * length rs + 1) (schedule n (Suc a) ts')"
    unfolding ts by (simp only: schedule.simps append.simps take_Suc_Cons)
  then have "trace w' = trace w @ take (3 * length (r # rs) + 1) (schedule n a ts)"
    using w'(4) by (simp add: setTimeout_def onFailedAttempt_def)
  moreover have "orders_ops w' = orders_ops w"
    using w'(3) by (simp add: setTimeout_def onFailedAttempt_def)
  ultimately show ?case
    using step w'(1,2) by simp
qed

lemma eachMessage_decoded:
  assumes "message_value msg = Some (Parsed payload)" "\<not> nullish payload"
  shows "eachMessage msg w =
     operation_attempt
       (attempt_upsert (JObject
          [(''orderId'', get payload ''orderId''),
           (''partnerId'', get payload ''partnerId''),
           (''status'', get payload ''status''),
           (''totalAmount'', get payload ''totalAmount''),
           (''currency'', coalesce (get payload ''currency'') (JString ''USD'')),
           (''isDeleted'', JBool (truthy (get payload ''isDeleted'')))]))
       onFailedAttempt 2 1 [2000, 4000] [] w"
proof -
  have "retries consumer_options = 2"
    by (simp add: consumer_options_def)
  then show ?thesis
    using assms by (simp add: eachMessage_def pRetry_def timeouts_consumer_options Let_def)
qed

lemma eachMessage_attempts:
  assumes "message_value msg = Some (Parsed payload)" "\<not> nullish payload"
  shows "\<exists>order. \<not> nullish order \<and> get order ''orderId'' = get payload ''orderId'' \<and>
           eachMessage msg w =
             operation_attempt (attempt_upsert order) onFailedAttempt 2 1 [2000, 4000] [] w"
proof -
  let ?order = "JObject
          [(''orderId'', get payload ''orderId''),
           (''partnerId'', get payload ''partnerId''),
           (''status'', get payload ''status''),
           (''totalAmount'', get payload ''totalAmount''),
           (''currency'', coalesce (get payload ''currency'') (JString ''USD'')),
           (''isDeleted'', JBool (truthy (get payload ''isDeleted'')))]"
  have "\<not> nullish ?order" "get ?order ''orderId'' = get payload ''orderId''"
    by (simp_all add: nullish_def)
  with eachMessage_decoded [OF assms] show ?thesis
    by blast
qed

text \<open>
  C1, amended. When the store rejects an attempt with a permanent error, after at most
  two attempts rejected with retryable errors, the handler stops there: the trace ends
  with that attempt (no warning, no wait, no further attempt), no further statement is
  sent, the table is unchanged, and the handler rejects with the store's error. It does
  not return, so the offset of the message is not resolved.
\<close>

theorem permanent_failure_rejects_without_retry:
  assumes msg: "message_value msg = Some (Parsed payload)" "\<not> nullish payload"
      "parse (get payload ''orderId'') = Inr k"
    and script: "faults w = map Some rs @ Some f # rest"
      "\<forall>r \<in> set rs. classify (thrown_by_driver r) = Retryable" "length rs \<le> 2"
    and perm: "classify (thrown_by_driver f) = Permanent"
  shows "fst (eachMessage msg w) = Inl (thrown_by_driver f) \<and>
         \<not> offset_resolved (fst (eachMessage msg w)) \<and>
         faults (snd (eachMessage msg w)) = rest \<and>
         orders_ops (snd (eachMessage msg w)) = orders_ops w \<and>
         trace (snd (eachMessage msg w)) =
           trace w @ take (3 * length rs + 1)
             [Invoke 1, Warn 1 2, SetTimeout 2000, Invoke 2, Warn 2 1, SetTimeout 4000, Invoke 3]"
proof -
  from eachMessage_attempts [OF msg(1,2)] obtain order where
    order: "\<not> nullish order" "get order ''orderId'' = get payload ''orderId''"
    and run: "eachMessage msg w =
       operation_attempt (attempt_upsert order) onFailedAttempt 2 1 [2000, 4000] [] w"
    by blast
  have key: "parse (get order ''orderId'') = Inr k"
    using order(2) msg(3) by simp
  have retr: "\<forall>r \<in> set rs. isRetryable (thrown_by_driver r)"
    using script(2) by (auto simp: classify_def split: if_splits)
  have notr: "\<not> isRetryable (thrown_by_driver f)"
    using perm by (simp add: classify_def split: if_splits)
  have len: "length rs \<le> length [2000, 4000 :: int]"
    using script(3) by simp
  from abort_after_retried [OF order(1) key script(1) retr len notr, of 2 1 "[]"]
  obtain w' where w': "eachMessage msg w = (Inl (thrown_by_driver f), w')"
      "faults w' = rest" "orders_ops w' = orders_ops w"
      "trace w' = trace w @ take (3 * length rs + 1) (schedule 2 1 [2000, 4000])"
    unfolding run by blast
  have "take (3 * length rs + 1) (schedule 2 1 [2000, 4000]) =
        take (3 * length rs + 1)
          [Invoke 1, Warn 1 2, SetTimeout 2000, Invoke 2, Warn 2 1, SetTimeout 4000, Invoke 3]"
  proof -
    have "schedule 2 1 [2000, 4000] =
        [Invoke 1, Warn 1 2, SetTimeout 2000, Invoke 2, Warn 2 1, SetTimeout 4000, Invoke 3]
          @ [Warn 3 0]"
      by simp
    moreover have "3 * length rs + 1 \<le>
        length [Invoke 1, Warn 1 2, SetTimeout 2000, Invoke 2, Warn 2 1, SetTimeout 4000, Invoke 3]"
      using script(3) by simp
    ultimately show ?thesis
      by (simp only: take_append) simp
  qed
  with w' show ?thesis by simp
qed


lemma schedule_consumer:
  "schedule 2 1 [2000, 4000] =
     [Invoke 1, Warn 1 2, SetTimeout 2000, Invoke 2, Warn 2 1, SetTimeout 4000, Invoke 3, Warn 3 0]"
  by simp

theorem permanent_failure_rejects_without_retry_witness:
  "message_value \<lparr>message_value = Some (Parsed (JObject
       [(''orderId'', JString ''3f2504e0-4f89-11d3-9a0c-0305e82c3301''),
        (''partnerId'', JString ''p-1001''), (''status'', JString ''PLACED''),
        (''totalAmount'', JNumber 25)]))\<rparr> =
     Some (Parsed (JObject
       [(''orderId'', JString ''3f2504e0-4f89-11d3-9a0c-0305e82c3301''),
        (''partnerId'', JString ''p-1001''), (''status'', JString ''PLACED''),
        (''totalAmount'', JNumber 25)])) \<and>
   classify (thrown_by_driver \<lparr>sql_message = ''Deadlock found when trying to get lock'',
       sql_code = JString ''ER_LOCK_DEADLOCK'', sql_errno = JNumber 1213\<rparr>) = Retryable \<and>
   classify (thrown_by_driver \<lparr>sql_message = ''Data too long for column 'status' at row 1'',
       sql_code = JString ''ER_DATA_TOO_LONG'', sql_errno = JNumber 1406\<rparr>) = Permanent \<and>
   fst (eachMessage
     \<lparr>message_value = Some (Parsed (JObject
       [(''orderId'', JString ''3f2504e0-4f89-11d3-9a0c-0305e82c3301''),
        (''partnerId'', JString ''p-1001''), (''status'', JString ''PLACED''),
        (''totalAmount'', JNumber 25)]))\<rparr>
     \<lparr>orders_ops = [],
      faults = [Some \<lparr>sql_message = ''Deadlock found when trying to get lock'',
                  sql_code = JString ''ER_LOCK_DEADLOCK'', sql_errno = JNumber 1213\<rparr>,
                Some \<lparr>sql_message = ''Data too long for column 'status' at row 1'',
                  sql_code = JString ''ER_DATA_TOO_LONG'', sql_errno = JNumber 1406\<rparr>,
                None],
      clock = 0, trace = [], draws = []\<rparr>) =
     Inl (thrown_by_driver \<lparr>sql_message = ''Data too long for column 'status' at row 1'',
       sql_code = JString ''ER_DATA_TOO_LONG'', sql_errno = JNumber 1406\<rparr>) \<and>
   trace (snd (eachMessage
     \<lparr>message_value = Some (Parsed (JObject
       [(''orderId'', JString ''3f2504e0-4f89-11d3-9a0c-0305e82c3301''),
        (''partnerId'', JString ''p-1001''), (''status'', JString ''PLACED''),
        (''totalAmount'', JNumber 25)]))\<rparr>
     \<lparr>orders_ops = [],
      faults = [Some \<lparr>sql_message = ''Deadlock found when trying to get lock'',
                  sql_code = JString ''ER_LOCK_DEADLOCK'', sql_errno = JNumber 1213\<rparr>,
                Some \<lparr>sql_message = ''Data too long for column 'status' at row 1'',
                  sql_code = JString ''ER_DATA_TOO_LONG'', sql_errno = JNumber 1406\<rparr>,
                None],
      clock = 0, trace = [], draws = []\<rparr>)) =
     [Invoke 1, Warn 1 2, SetTimeout 2000, Invoke 2]"
proof -
  let ?payload = "JObject
       [(''orderId'', JString ''3f2504e0-4f89-11d3-9a0c-0305e82c3301''),
        (''partnerId'', JString ''p-1001''), (''status'', JString ''PLACED''),
        (''totalAmount'', JNumber 25)]"
  let ?msg = "\<lparr>message_value = Some (Parsed ?payload)\<rparr>"
  let ?r = "\<lparr>sql_message = ''Deadlock found when trying to get lock'',
       sql_code = JString ''ER_LOCK_DEADLOCK'', sql_errno = JNumber 1213\<rparr>"
  let ?f = "\<lparr>sql_message = ''Data too long for column 'status' at row 1'',
       sql_code = JString ''ER_DATA_TOO_LONG'', sql_errno = JNumber 1406\<rparr>"
  let ?w = "\<lparr>orders_ops = [], faults = [Some ?r, Some ?f, None],
      clock = 0, trace = [], draws = []\<rparr>"
  have m: "message_value ?msg = Some (Parsed ?payload)"
    by simp
  have n: "\<not> nullish ?payload"
    by (simp add: nullish_def)
  have p: "parse (JString ''3f2504e0-4f89-11d3-9a0c-0305e82c3301'') =
           Inr [63, 37, 4, 224, 79, 137, 17, 211, 154, 12, 3, 5, 232, 44, 51, 1]"
    by code_simp
  have k: "parse (get ?payload ''orderId'') =
           Inr [63, 37, 4, 224, 79, 137, 17, 211, 154, 12, 3, 5, 232, 44, 51, 1]"
    using p by simp
  have s: "faults ?w = map Some [?r] @ Some ?f # [None]"
    by simp
  have cr: "classify (thrown_by_driver ?r) = Retryable"
    by (simp add: classify_def isRetryable_def has_def retryableCodes_def retryableErrnos_def
        thrown_by_driver_def)
  have cf: "classify (thrown_by_driver ?f) = Permanent"
    by (simp add: classify_def isRetryable_def has_def retryableCodes_def retryableErrnos_def
        thrown_by_driver_def)
  have rs: "\<forall>r \<in> set [?r]. classify (thrown_by_driver r) = Retryable"
    using cr by simp
  have l: "length [?r] \<le> 2"
    by simp
  from permanent_failure_rejects_without_retry [OF m n k s rs l cf]
  have "fst (eachMessage ?msg ?w) = Inl (thrown_by_driver ?f)"
    and "trace (snd (eachMessage ?msg ?w)) = trace ?w @ take (3 * length [?r] + 1)
       [Invoke 1, Warn 1 2, SetTimeout 2000, Invoke 2, Warn 2 1, SetTimeout 4000, Invoke 3]"
    by blast+
  then show ?thesis
    using cr cf by simp
qed

text \<open>
  C1. The claim that the handler completes so that the cursor advances past a
  permanently failed message fails: on an access-denied error the handler rejects.
\<close>

theorem permanent_failure_advances_cursor_counterexample:
  "classify (thrown_by_driver \<lparr>sql_message = ''Access denied for user 'app' (using password: YES)'',
       sql_code = JString ''ER_ACCESS_DENIED_ERROR'', sql_errno = JNumber 1045\<rparr>) = Permanent \<and>
   \<not> offset_resolved (fst (eachMessage
     \<lparr>message_value = Some (Parsed (JObject
       [(''orderId'', JString ''3f2504e0-4f89-11d3-9a0c-0305e82c3301''),
        (''partnerId'', JString ''p-1001''), (''status'', JString ''PLACED''),
        (''totalAmount'', JNumber 25)]))\<rparr>
     \<lparr>orders_ops = [],
      faults = [Some \<lparr>sql_message = ''Access denied for user 'app' (using password: YES)'',
                  sql_code = JString ''ER_ACCESS_DENIED_ERROR'', sql_errno = JNumber 1045\<rparr>],
      clock = 0, trace = [], draws = []\<rparr>))"
  by code_simp


lemma onFailedAttempt_fields:
  "trace (onFailedAttempt e a r w) = trace w @ [Warn a r]"
  "faults (onFailedAttempt e a r w) = faults w"
  "orders_ops (onFailedAttempt e a r w) = orders_ops w"
  "clock (onFailedAttempt e a r w) = clock w"
  by (simp_all add: onFailedAttempt_def)

lemma setTimeout_fields:
  "trace (setTimeout t w) = trace w @ [SetTimeout t]"
  "faults (setTimeout t w) = faults w"
  "orders_ops (setTimeout t w) = orders_ops w"
  "clock (setTimeout t w) = clock w + nat t"
  by (simp_all add: setTimeout_def)

lemma mainError_loop_mem:
  "mainError_loop es counts m c = Some x \<Longrightarrow> x \<in> set es \<or> m = Some x"
proof (induction es arbitrary: counts m c)
  case Nil
  then show ?case by simp
next
  case (Cons e es)
  then show ?case
    by (fastforce simp: Let_def split: if_splits)
qed

lemma mainError_mem: "mainError es = Some x \<Longrightarrow> x \<in> set es"
  using mainError_loop_mem [of es "[]" None 0 x] by (simp add: mainError_def)

lemma exhausted_after_retried:
  assumes "\<not> nullish order" "parse (get order ''orderId'') = Inr k"
    and "faults w = map Some fs @ rest" "length fs = Suc (length ts)"
    and "\<forall>f \<in> set fs. isRetryable (thrown_by_driver f)"
  shows "\<exists>e w'. operation_attempt (attempt_upsert order) onFailedAttempt n a ts errs w =
            (Inl e, w') \<and>
          e \<in> set errs \<union> thrown_by_driver ` set fs \<and>
          faults w' = rest \<and> orders_ops w' = orders_ops w \<and>
          trace w' = trace w @ schedule n a ts \<and>
          clock w' = clock w + sum_list (map nat ts)"
  using assms(3-5)
proof (induction ts arbitrary: a errs w fs)
  case Nil
  then obtain f where fs: "fs = [f]"
    by (cases fs) auto
  let ?w0 = "w\<lparr>trace := trace w @ [Invoke a]\<rparr>"
  let ?e = "thrown_by_driver f"
  let ?w1 = "?w0\<lparr>faults := rest\<rparr>"
  have "faults ?w0 = Some f # rest"
    using Nil fs by simp
  then have "attempt_upsert order a ?w0 = (Inl (Failure ?e), ?w1)"
    using attempt_upsert_fault [OF assms(1,2)] Nil.prems(3) fs by simp
  then have "operation_attempt (attempt_upsert order) onFailedAttempt n a [] errs w =
      (Inl (case mainError (errs @ [?e]) of None \<Rightarrow> ?e | Some m \<Rightarrow> m),
       onFailedAttempt ?e a (int n - (int a - 1)) ?w1)"
    by (rule attempt_exhausted) (rule name_thrown_by_driver)
  moreover have "(case mainError (errs @ [?e]) of None \<Rightarrow> ?e | Some m \<Rightarrow> m)
                 \<in> set errs \<union> thrown_by_driver ` set fs"
    using mainError_mem [of "errs @ [?e]"] by (auto simp: fs split: option.splits)
  ultimately show ?case
    by (simp add: onFailedAttempt_fields)
next
  case (Cons t ts)
  then obtain f fs' where fs: "fs = f # fs'"
    by (cases fs) auto
  let ?w0 = "w\<lparr>trace := trace w @ [Invoke a]\<rparr>"
  let ?e = "thrown_by_driver f"
  let ?w1 = "?w0\<lparr>faults := map Some fs' @ rest\<rparr>"
  let ?w2 = "setTimeout t (onFailedAttempt ?e a (int n - (int a - 1)) ?w1)"
  have "faults ?w0 = Some f # (map Some fs' @ rest)"
    using Cons.prems fs by simp
  then have "attempt_upsert order a ?w0 = (Inl (Failure ?e), ?w1)"
    using attempt_upsert_fault [OF assms(1,2)] Cons.prems(3) fs by simp
  then have step: "operation_attempt (attempt_upsert order) onFailedAttempt n a (t # ts) errs w =
      operation_attempt (attempt_upsert order) onFailedAttempt n (Suc a) ts (errs @ [?e]) ?w2"
    by (rule attempt_retried) (rule name_thrown_by_driver)
  have f2: "faults ?w2 = map Some fs' @ rest"
    by (simp add: setTimeout_fields onFailedAttempt_fields)
  have l2: "length fs' = Suc (length ts)"
    using Cons.prems(2) fs by simp
  have r2: "\<forall>f \<in> set fs'. isRetryable (thrown_by_driver f)"
    using Cons.prems(3) fs by simp
  from Cons.IH [OF f2 l2 r2, of "Suc a" "errs @ [?e]"]
  obtain e w' where w': "operation_attempt (attempt_upsert order) onFailedAttempt n (Suc a) ts
        (errs @ [?e]) ?w2 = (Inl e, w')"
      "e \<in> set (errs @ [?e]) \<union> thrown_by_driver ` set fs'"
      "faults w' = rest" "orders_ops w' = orders_ops ?w2"
      "trace w' = trace ?w2 @ schedule n (Suc a) ts"
      "clock w' = clock ?w2 + sum_list (map nat ts)"
    by blast
  have "e \<in> set errs \<union> thrown_by_driver ` set fs"
    using w'(2) fs by auto
  moreover have "trace w' = trace w @ schedule n a (t # ts)"
    using w'(5) by (simp add: setTimeout_fields onFailedAttempt_fields)
  moreover have "orders_ops w' = orders_ops w"
    using w'(4) by (simp add: setTimeout_fields onFailedAttempt_fields)
  moreover have "clock w' = clock w + sum_list (map nat (t # ts))"
    using w'(6) by (simp add: setTimeout_fields onFailedAttempt_fields)
  ultimately show ?case
    using step w'(1,3) by simp
qed

lemma attempt_upsert_trace: "trace (snd (attempt_upsert order a w)) = trace w"
  by (auto simp: attempt_upsert_def upsertOrder_def query_upsert_def take_fault_def Let_def
      split: prod.splits sum.splits option.splits list.splits if_splits)

lemma prefix_schedule_Invoke: "prefix [Invoke a] (schedule n a ts)"
  by (cases ts) simp_all

lemma trace_attempts_prefix:
  assumes keep: "\<And>a w. trace (snd (input a w)) = trace w"
  shows "\<exists>new. trace (snd (operation_attempt input onFailedAttempt n a ts errs w)) = trace w @ new \<and>
           prefix new (schedule n a ts)"
proof (induction ts arbitrary: a errs w)
  case Nil
  let ?w0 = "w\<lparr>trace := trace w @ [Invoke a]\<rparr>"
  obtain out w1 where r: "input a ?w0 = (out, w1)"
    by (cases "input a ?w0")
  have t1: "trace w1 = trace w @ [Invoke a]"
    using keep [of a ?w0] r by simp
  show ?case
  proof (cases out)
    case (Inr v)
    then show ?thesis
      using attempt_resolved [of input a w v w1] r t1 prefix_schedule_Invoke by fastforce
  next
    case (Inl th)
    show ?thesis
    proof (cases th)
      case (AbortError e)
      then show ?thesis
        using attempt_aborted [of input a w e w1] r t1 Inl prefix_schedule_Invoke by fastforce
    next
      case (Failure e)
      show ?thesis
      proof (cases "name e = ''TypeError'' \<and> message e \<notin> set networkErrorMsgs")
        case True
        then show ?thesis
          using attempt_type_error [of input a w e w1] r t1 Inl Failure prefix_schedule_Invoke
          by fastforce
      next
        case False
        have "operation_attempt input onFailedAttempt n a [] errs w =
            (Inl (case mainError (errs @ [e]) of None \<Rightarrow> e | Some m \<Rightarrow> m),
             onFailedAttempt e a (int n - (int a - 1)) w1)"
          using r Inl Failure False by (intro attempt_exhausted) simp_all
        then show ?thesis
          using t1 by (simp add: onFailedAttempt_fields)
      qed
    qed
  qed
next
  case (Cons t ts)
  let ?w0 = "w\<lparr>trace := trace w @ [Invoke a]\<rparr>"
  obtain out w1 where r: "input a ?w0 = (out, w1)"
    by (cases "input a ?w0")
  have t1: "trace w1 = trace w @ [Invoke a]"
    using keep [of a ?w0] r by simp
  show ?case
  proof (cases out)
    case (Inr v)
    then show ?thesis
      using attempt_resolved [of input a w v w1] r t1 prefix_schedule_Invoke by fastforce
  next
    case (Inl th)
    show ?thesis
    proof (cases th)
      case (AbortError e)
      then show ?thesis
        using attempt_aborted [of input a w e w1] r t1 Inl prefix_schedule_Invoke by fastforce
    next
      case (Failure e)
      show ?thesis
      proof (cases "name e = ''TypeError'' \<and> message e \<notin> set networkErrorMsgs")
        case True
        then show ?thesis
          using attempt_type_error [of input a w e w1] r t1 Inl Failure prefix_schedule_Invoke
          by fastforce
      next
        case False
        let ?w2 = "setTimeout t (onFailedAttempt e a (int n - (int a - 1)) w1)"
        have step: "operation_attempt input onFailedAttempt n a (t # ts) errs w =
            operation_attempt input onFailedAttempt n (Suc a) ts (errs @ [e]) ?w2"
          using r Inl Failure False by (intro attempt_retried) simp_all
        from Cons.IH [of "Suc a" "errs @ [e]" ?w2]
        obtain new where new: "trace (snd (operation_attempt input onFailedAttempt n (Suc a) ts
              (errs @ [e]) ?w2)) = trace ?w2 @ new" "prefix new (schedule n (Suc a) ts)"
          by blast
        have "trace ?w2 = trace w @ [Invoke a, Warn a (int n - (int a - 1)), SetTimeout t]"
          using t1 by (simp add: setTimeout_fields onFailedAttempt_fields)
        then have "trace (snd (operation_attempt input onFailedAttempt n a (t # ts) errs w)) =
            trace w @ ([Invoke a, Warn a (int n - (int a - 1)), SetTimeout t] @ new)"
          using step new(1) by simp
        moreover have "prefix ([Invoke a, Warn a (int n - (int a - 1)), SetTimeout t] @ new)
            (schedule n a (t # ts))"
          using new(2) by simp
        ultimately show ?thesis by blast
      qed
    qed
  qed
qed

lemma eachMessage_undecodable:
  assumes "decode_error msg = Some e"
  shows "eachMessage msg w = (Inl e, w) \<or>
         eachMessage msg w = (Inl e, w\<lparr>trace := trace w @ [Invoke 1]\<rparr>)"
proof (cases "message_value msg")
  case None
  then show ?thesis
    using assms by (simp add: decode_error_def eachMessage_def)
next
  case (Some body)
  show ?thesis
  proof (cases body)
    case Unparseable
    then show ?thesis
      using assms Some by (simp add: decode_error_def eachMessage_def)
  next
    case (Parsed payload)
    show ?thesis
    proof (cases "nullish payload")
      case True
      then show ?thesis
        using assms Some Parsed by (simp add: decode_error_def eachMessage_def)
    next
      case False
      then have bad: "parse (get payload ''orderId'') = Inl e"
        using assms Some Parsed by (simp add: decode_error_def split: sum.splits)
      from eachMessage_attempts [of msg payload w] Some Parsed False obtain order where
        order: "\<not> nullish order" "get order ''orderId'' = get payload ''orderId''"
        and run: "eachMessage msg w =
           operation_attempt (attempt_upsert order) onFailedAttempt 2 1 [2000, 4000] [] w"
        by auto
      have "attempt_upsert order 1 (w\<lparr>trace := trace w @ [Invoke 1]\<rparr>) =
            (Inl (AbortError e), w\<lparr>trace := trace w @ [Invoke 1]\<rparr>)"
        using order bad by (simp add: attempt_upsert_invalid)
      then have "eachMessage msg w = (Inl e, w\<lparr>trace := trace w @ [Invoke 1]\<rparr>)"
        unfolding run by (rule attempt_aborted)
      then show ?thesis by simp
    qed
  qed
qed

text \<open>
  C6. The timeouts of the consumer's retry options are 2 and 4 seconds whatever
  \<^verbatim>\<open>Math.random()\<close> returns (no jitter), each between the minimum of 2 and the
  maximum of 5 seconds. A message whose three attempts all fail with retryable errors
  gets exactly three attempts, with waits of 2000 ms and 4000 ms between them, and
  is then rejected with one of the three errors. For every message the handler's trace
  is a prefix of that schedule: never more than 3 attempts or 2 waits.
\<close>

theorem retry_schedule:
  "timeouts us consumer_options = [2 * 1000, 4 * 1000] \<and>
   list_all (\<lambda>t. minTimeout consumer_options \<le> t \<and> t \<le> 5 * 1000) (timeouts us consumer_options) \<and>
   (message_value msg = Some (Parsed payload) \<longrightarrow> \<not> nullish payload \<longrightarrow>
    parse (get payload ''orderId'') = Inr k \<longrightarrow>
    faults w = Some f1 # Some f2 # Some f3 # rest \<longrightarrow>
    list_all (\<lambda>f. classify (thrown_by_driver f) = Retryable) [f1, f2, f3] \<longrightarrow>
      fst (eachMessage msg w) \<in> Inl ` thrown_by_driver ` {f1, f2, f3} \<and>
      faults (snd (eachMessage msg w)) = rest \<and>
      orders_ops (snd (eachMessage msg w)) = orders_ops w \<and>
      clock (snd (eachMessage msg w)) = clock w + 6000 \<and>
      trace (snd (eachMessage msg w)) = trace w @
        [Invoke 1, Warn 1 2, SetTimeout 2000, Invoke 2, Warn 2 1, SetTimeout 4000,
         Invoke 3, Warn 3 0]) \<and>
   (\<exists>new. trace (snd (eachMessage msg w)) = trace w @ new \<and>
      prefix new [Invoke 1, Warn 1 2, SetTimeout 2000, Invoke 2, Warn 2 1, SetTimeout 4000,
                  Invoke 3, Warn 3 0])"
proof (intro conjI impI)
  show "timeouts us consumer_options = [2 * 1000, 4 * 1000]"
    by (simp add: timeouts_consumer_options)
  show "list_all (\<lambda>t. minTimeout consumer_options \<le> t \<and> t \<le> 5 * 1000)
          (timeouts us consumer_options)"
    unfolding timeouts_consumer_options by (simp add: consumer_options_def)
next
  assume msg: "message_value msg = Some (Parsed payload)" "\<not> nullish payload"
    and key: "parse (get payload ''orderId'') = Inr k"
    and script: "faults w = Some f1 # Some f2 # Some f3 # rest"
    and retr: "list_all (\<lambda>f. classify (thrown_by_driver f) = Retryable) [f1, f2, f3]"
  from eachMessage_attempts [OF msg] obtain order where
    order: "\<not> nullish order" "get order ''orderId'' = get payload ''orderId''"
    and run: "eachMessage msg w =
       operation_attempt (attempt_upsert order) onFailedAttempt 2 1 [2000, 4000] [] w"
    by blast
  have k: "parse (get order ''orderId'') = Inr k"
    using order(2) key by simp
  have s: "faults w = map Some [f1, f2, f3] @ rest"
    using script by simp
  have l: "length [f1, f2, f3] = Suc (length [2000, 4000 :: int])"
    by simp
  have r: "\<forall>f \<in> set [f1, f2, f3]. isRetryable (thrown_by_driver f)"
    using retr by (auto simp: classify_def split: if_splits)
  from exhausted_after_retried [OF order(1) k s l r, of 2 1 "[]"]
  obtain e w' where w': "eachMessage msg w = (Inl e, w')"
      "e \<in> set [] \<union> thrown_by_driver ` set [f1, f2, f3]"
      "faults w' = rest" "orders_ops w' = orders_ops w"
      "trace w' = trace w @ schedule 2 1 [2000, 4000]"
      "clock w' = clock w + sum_list (map nat [2000, 4000])"
    unfolding run by blast
  show "fst (eachMessage msg w) \<in> Inl ` thrown_by_driver ` {f1, f2, f3}"
    using w'(1,2) by auto
  show "faults (snd (eachMessage msg w)) = rest"
    using w'(1,3) by simp
  show "orders_ops (snd (eachMessage msg w)) = orders_ops w"
    using w'(1,4) by simp
  show "clock (snd (eachMessage msg w)) = clock w + 6000"
    using w'(1,6) by simp
  show "trace (snd (eachMessage msg w)) = trace w @
        [Invoke 1, Warn 1 2, SetTimeout 2000, Invoke 2, Warn 2 1, SetTimeout 4000,
         Invoke 3, Warn 3 0]"
    using w'(1,5) by (simp only: schedule_consumer snd_conv)
next
  show "\<exists>new. trace (snd (eachMessage msg w)) = trace w @ new \<and>
      prefix new [Invoke 1, Warn 1 2, SetTimeout 2000, Invoke 2, Warn 2 1, SetTimeout 4000,
                  Invoke 3, Warn 3 0]"
  proof (cases "decode_error msg")
    case None
    then obtain payload' where p: "message_value msg = Some (Parsed payload')" "\<not> nullish payload'"
      by (auto simp: decode_error_def split: option.splits sum.splits if_splits
          elim: JSON_parse.elims)
    from trace_attempts_prefix [of "attempt_upsert _", OF attempt_upsert_trace]
    show ?thesis
      unfolding eachMessage_decoded [OF p] schedule_consumer [symmetric] by blast
  next
    case (Some e)
    from eachMessage_undecodable [OF this, of w]
    have "trace (snd (eachMessage msg w)) = trace w \<or>
          trace (snd (eachMessage msg w)) = trace w @ [Invoke 1]"
      by auto
    then show ?thesis by auto
  qed
qed

theorem retry_schedule_witness:
  "message_value \<lparr>message_value = Some (Parsed (JObject
       [(''orderId'', JString ''3f2504e0-4f89-11d3-9a0c-0305e82c3301''),
        (''partnerId'', JString ''p-outage''), (''status'', JString ''PLACED''),
        (''totalAmount'', JNumber 55)]))\<rparr> =
     Some (Parsed (JObject
       [(''orderId'', JString ''3f2504e0-4f89-11d3-9a0c-0305e82c3301''),
        (''partnerId'', JString ''p-outage''), (''status'', JString ''PLACED''),
        (''totalAmount'', JNumber 55)])) \<and>
   list_all (\<lambda>f. classify (thrown_by_driver f) = Retryable)
     [\<lparr>sql_message = ''connect ECONNREFUSED 127.0.0.1:3309'',
        sql_code = JString ''ECONNREFUSED'', sql_errno = JNumber (- 111)\<rparr>,
      \<lparr>sql_message = ''connect ETIMEDOUT'',
        sql_code = JString ''ETIMEDOUT'', sql_errno = JUndefined\<rparr>,
      \<lparr>sql_message = ''Lock wait timeout exceeded; try restarting transaction'',
        sql_code = JString ''ER_LOCK_WAIT_TIMEOUT'', sql_errno = JNumber 1205\<rparr>] \<and>
   timeouts [1 / 2, 1 / 3] consumer_options = [2000, 4000] \<and>
   trace (snd (eachMessage
     \<lparr>message_value = Some (Parsed (JObject
       [(''orderId'', JString ''3f2504e0-4f89-11d3-9a0c-0305e82c3301''),
        (''partnerId'', JString ''p-outage''), (''status'', JString ''PLACED''),
        (''totalAmount'', JNumber 55)]))\<rparr>
     \<lparr>orders_ops = [],
      faults =
        [Some \<lparr>sql_message = ''connect ECONNREFUSED 127.0.0.1:3309'',
           sql_code = JString ''ECONNREFUSED'', sql_errno = JNumber (- 111)\<rparr>,
         Some \<lparr>sql_message = ''connect ETIMEDOUT'',
           sql_code = JString ''ETIMEDOUT'', sql_errno = JUndefined\<rparr>,
         Some \<lparr>sql_message = ''Lock wait timeout exceeded; try restarting transaction'',
           sql_code = JString ''ER_LOCK_WAIT_TIMEOUT'', sql_errno = JNumber 1205\<rparr>],
      clock = 0, trace = [], draws = [1 / 2, 1 / 3]\<rparr>)) =
     [Invoke 1, Warn 1 2, SetTimeout 2000, Invoke 2, Warn 2 1, SetTimeout 4000,
      Invoke 3, Warn 3 0] \<and>
   clock (snd (eachMessage
     \<lparr>message_value = Some (Parsed (JObject
       [(''orderId'', JString ''3f2504e0-4f89-11d3-9a0c-0305e82c3301''),
        (''partnerId'', JString ''p-outage''), (''status'', JString ''PLACED''),
        (''totalAmount'', JNumber 55)]))\<rparr>
     \<lparr>orders_ops = [],
      faults =
        [Some \<lparr>sql_message = ''connect ECONNREFUSED 127.0.0.1:3309'',
           sql_code = JString ''ECONNREFUSED'', sql_errno = JNumber (- 111)\<rparr>,
         Some \<lparr>sql_message = ''connect ETIMEDOUT'',
           sql_code = JString ''ETIMEDOUT'', sql_errno = JUndefined\<rparr>,
         Some \<lparr>sql_message = ''Lock wait timeout exceeded; try restarting transaction'',
           sql_code = JString ''ER_LOCK_WAIT_TIMEOUT'', sql_errno = JNumber 1205\<rparr>],
      clock = 0, trace = [], draws = [1 / 2, 1 / 3]\<rparr>)) = 6000"
proof -
  let ?payload = "JObject
       [(''orderId'', JString ''3f2504e0-4f89-11d3-9a0c-0305e82c3301''),
        (''partnerId'', JString ''p-outage''), (''status'', JString ''PLACED''),
        (''totalAmount'', JNumber 55)]"
  let ?msg = "\<lparr>message_value = Some (Parsed ?payload)\<rparr>"
  let ?f1 = "\<lparr>sql_message = ''connect ECONNREFUSED 127.0.0.1:3309'',
        sql_code = JString ''ECONNREFUSED'', sql_errno = JNumber (- 111)\<rparr>"
  let ?f2 = "\<lparr>sql_message = ''connect ETIMEDOUT'',
        sql_code = JString ''ETIMEDOUT'', sql_errno = JUndefined\<rparr>"
  let ?f3 = "\<lparr>sql_message = ''Lock wait timeout exceeded; try restarting transaction'',
        sql_code = JString ''ER_LOCK_WAIT_TIMEOUT'', sql_errno = JNumber 1205\<rparr>"
  let ?w = "\<lparr>orders_ops = [], faults = [Some ?f1, Some ?f2, Some ?f3],
      clock = 0, trace = [], draws = [1 / 2, 1 / 3]\<rparr>"
  have m: "message_value ?msg = Some (Parsed ?payload)"
    by simp
  have n: "\<not> nullish ?payload"
    by (simp add: nullish_def)
  have p: "parse (JString ''3f2504e0-4f89-11d3-9a0c-0305e82c3301'') =
           Inr [63, 37, 4, 224, 79, 137, 17, 211, 154, 12, 3, 5, 232, 44, 51, 1]"
    by code_simp
  have k: "parse (get ?payload ''orderId'') =
           Inr [63, 37, 4, 224, 79, 137, 17, 211, 154, 12, 3, 5, 232, 44, 51, 1]"
    using p by simp
  have s: "faults ?w = Some ?f1 # Some ?f2 # Some ?f3 # []"
    by simp
  have r: "list_all (\<lambda>f. classify (thrown_by_driver f) = Retryable) [?f1, ?f2, ?f3]"
    by (simp add: classify_def isRetryable_def has_def retryableCodes_def retryableErrnos_def
        thrown_by_driver_def)
  from retry_schedule [of "[1 / 2, 1 / 3]" ?msg ?payload _ ?w ?f1 ?f2 ?f3 "[]"] m n k s r
  have "timeouts [1 / 2, 1 / 3] consumer_options = [2 * 1000, 4 * 1000]"
    and "trace (snd (eachMessage ?msg ?w)) = trace ?w @
        [Invoke 1, Warn 1 2, SetTimeout 2000, Invoke 2, Warn 2 1, SetTimeout 4000,
         Invoke 3, Warn 3 0]"
    and "clock (snd (eachMessage ?msg ?w)) = clock ?w + 6000"
    by blast+
  then show ?thesis
    using m r by simp
qed

text \<open>
  C2, amended. A message that fails to decode is not skipped: the handler rejects with
  the decode error and the offset is not resolved. No statement is sent, no row
  changes, nothing is waited for or retried; an invalid identifier is found in the
  first and only attempt.
\<close>

theorem decode_failure_rejects:
  assumes "decode_error msg = Some e"
  shows "fst (eachMessage msg w) = Inl e \<and>
         \<not> offset_resolved (fst (eachMessage msg w)) \<and>
         orders_ops (snd (eachMessage msg w)) = orders_ops w \<and>
         faults (snd (eachMessage msg w)) = faults w \<and>
         clock (snd (eachMessage msg w)) = clock w \<and>
         (trace (snd (eachMessage msg w)) = trace w \<or>
          trace (snd (eachMessage msg w)) = trace w @ [Invoke 1])"
proof -
  from eachMessage_undecodable [OF assms, of w]
  consider "eachMessage msg w = (Inl e, w)"
    | "eachMessage msg w = (Inl e, w\<lparr>trace := trace w @ [Invoke 1]\<rparr>)"
    by blast
  then show ?thesis
  proof cases
    case 1
    then show ?thesis by simp
  next
    case 2
    then show ?thesis by simp
  qed
qed

theorem decode_failure_rejects_witness:
  "decode_error \<lparr>message_value = Some (Parsed (JObject
       [(''orderId'', JString ''not-a-uuid''), (''partnerId'', JString ''p-1001''),
        (''status'', JString ''PLACED''), (''totalAmount'', JNumber 25)]))\<rparr> =
     Some (invalid_uuid ''not-a-uuid'') \<and>
   eachMessage \<lparr>message_value = Some (Parsed (JObject
       [(''orderId'', JString ''not-a-uuid''), (''partnerId'', JString ''p-1001''),
        (''status'', JString ''PLACED''), (''totalAmount'', JNumber 25)]))\<rparr>
     \<lparr>orders_ops = [], faults = [None], clock = 0, trace = [], draws = []\<rparr> =
     (Inl (invalid_uuid ''not-a-uuid''),
      \<lparr>orders_ops = [], faults = [None], clock = 0, trace = [Invoke 1], draws = []\<rparr>)"
proof -
  let ?msg = "\<lparr>message_value = Some (Parsed (JObject
       [(''orderId'', JString ''not-a-uuid''), (''partnerId'', JString ''p-1001''),
        (''status'', JString ''PLACED''), (''totalAmount'', JNumber 25)]))\<rparr>"
  let ?w = "\<lparr>orders_ops = [], faults = [None], clock = 0, trace = [], draws = []\<rparr>"
  have d: "decode_error ?msg = Some (invalid_uuid ''not-a-uuid'')"
    by code_simp
  have t: "trace (snd (eachMessage ?msg ?w)) = [Invoke 1]"
    by code_simp
  have dr: "draws (snd (eachMessage ?msg ?w)) = []"
    by code_simp
  from decode_failure_rejects [OF d, of ?w] t
  have "fst (eachMessage ?msg ?w) = Inl (invalid_uuid ''not-a-uuid'')"
    and "orders_ops (snd (eachMessage ?msg ?w)) = []"
    and "faults (snd (eachMessage ?msg ?w)) = [None]"
    and "clock (snd (eachMessage ?msg ?w)) = 0"
    by simp_all
  with t dr have "eachMessage ?msg ?w = (Inl (invalid_uuid ''not-a-uuid''),
      \<lparr>orders_ops = [], faults = [None], clock = 0, trace = [Invoke 1], draws = []\<rparr>)"
    by (cases "eachMessage ?msg ?w") simp
  with d show ?thesis by blast
qed

text \<open>
  C2. The claim that the handler completes so that the cursor advances past a message
  that fails to decode fails, for text that is not JSON and for an invalid identifier.
\<close>

theorem decode_failure_advances_cursor_counterexample:
  "decode_error \<lparr>message_value = Some Unparseable\<rparr> =
     Some (plain_error ''SyntaxError'' ''Unexpected token in JSON'') \<and>
   \<not> offset_resolved (fst (eachMessage \<lparr>message_value = Some Unparseable\<rparr>
      \<lparr>orders_ops = [], faults = [], clock = 0, trace = [], draws = []\<rparr>)) \<and>
   decode_error \<lparr>message_value = Some (Parsed (JObject
       [(''orderId'', JString ''not-a-uuid''), (''partnerId'', JString ''p-1001''),
        (''status'', JString ''PLACED''), (''totalAmount'', JNumber 25)]))\<rparr> =
     Some (invalid_uuid ''not-a-uuid'') \<and>
   \<not> offset_resolved (fst (eachMessage \<lparr>message_value = Some (Parsed (JObject
       [(''orderId'', JString ''not-a-uuid''), (''partnerId'', JString ''p-1001''),
        (''status'', JString ''PLACED''), (''totalAmount'', JNumber 25)]))\<rparr>
      \<lparr>orders_ops = [], faults = [], clock = 0, trace = [], draws = []\<rparr>))"
  by code_simp

end
